theory Spec2Isabelle
  imports Main "HOL-Library.Multiset"
begin

section \<open>Values exchanged with the client\<close>

text \<open>
  A handler of \<^verbatim>\<open>main.py\<close> returns a Python dict that the framework sends as a JSON
  body with status 200, or raises \<^verbatim>\<open>HTTPException(status_code, detail)\<close>. An exception
  that no \<^verbatim>\<open>except\<close> clause of the handler catches leaves the handler as it is; what
  the framework then sends no longer carries the exception's message.
\<close>

datatype json =
    JNull
  | JBool bool
  | JInt int
  | JStr string
  | JList "json list"
  | JObj "(string \<times> json) list"

text \<open>
  The exception classes the handlers tell apart: \<^verbatim>\<open>except OperationalError\<close> catches
  only the first, \<^verbatim>\<open>except Exception\<close> catches all of them.
\<close>

datatype exc_class =
    OperationalError
  | ProgrammingError
  | TypeError
  | ValueError
  | ConnectionError
  | OtherException

datatype fault = Fault exc_class string

fun exc_class_of :: "fault \<Rightarrow> exc_class" where
  "exc_class_of (Fault c m) = c"

text \<open>\<^verbatim>\<open>str(e)\<close>: the message of the exception.\<close>

fun str_exc :: "fault \<Rightarrow> string" where
  "str_exc (Fault c m) = m"

datatype response =
    Ok json
  | HTTPException nat string
  | Unhandled fault

section \<open>The backends\<close>

text \<open>
  PostgreSQL and Redis are outside the repository. The handlers reach them only through
  the calls below; the model keeps what those calls read and write: the catalog of
  databases, the table \<^verbatim>\<open>test_connection\<close> with its \<^verbatim>\<open>SERIAL\<close> sequence, the
  connection pool, the key space of the cache, and a clock in whole seconds. It also
  keeps two logs, the calls made and the faults the calls raised, and three things
  the program cannot see: the fault plan, the server's grammar for what may follow a
  database name (\<open>tail_ok\<close>), and the server's shortening of an identifier to the
  length it stores (\<open>clip\<close>).
\<close>

record row =
  row_id :: int
  message :: string
  created_at :: nat

text \<open>The statements given to \<^verbatim>\<open>conn.execute(text(...))\<close>, in the order of the source.\<close>

datatype stmt =
    SelectVersion
  | CreateTableIfNotExists
  | InsertReturning string
  | SelectRecent10
  | InsertMessage string
  | SelectCount

datatype call =
    EngineConnect
  | Execute stmt
  | Commit
  | ConnClose
  | RawConnection
  | SetIsolationLevel nat
  | Cursor
  | CursorExecute string "string list"
  | CursorFetchone
  | CursorClose
  | RawClose
  | GetTableNames
  | RedisPing
  | RedisInfo string
  | RedisSet string string nat
  | RedisGet string
  | RedisTtl string

datatype result =
    Rows "row list"
  | Scalar json
  | NoRows

record backend =
  pg_version :: string
  databases :: "string set"
  tbl :: "row list option"
  seq :: int
  other_tables :: "string list"
  tx :: "row list option option"
  checked_out :: nat
  cursors_open :: nat
  isolation :: nat
  cursor_rows :: "int list list"
  cache :: "string \<rightharpoonup> string \<times> nat option"
  server_info :: "(string \<times> string) list"
  clock :: nat
  trace :: "call list"
  raised :: "fault list"
  fault_plan :: "nat \<Rightarrow> call \<Rightarrow> fault option"
  tail_ok :: "string \<Rightarrow> bool"
  clip :: "string \<Rightarrow> string"

text \<open>
  A computation against the backends either raises a fault or returns a value, and
  leaves a new backend state either way.
\<close>

type_synonym 'a io = "backend \<Rightarrow> (fault + 'a) \<times> backend"

definition ret :: "'a \<Rightarrow> 'a io" where
  "ret v s = (Inr v, s)"

definition raise :: "fault \<Rightarrow> 'a io" where
  "raise f s = (Inl f, s)"

text \<open>Sequencing of two statements: a fault of the first skips the second.\<close>

definition bind :: "'a io \<Rightarrow> ('a \<Rightarrow> 'b io) \<Rightarrow> 'b io" where
  "bind m k s = (case m s of (Inl f, s') \<Rightarrow> (Inl f, s') | (Inr v, s') \<Rightarrow> k v s')"

text \<open>
  Every call is appended to the trace, also one that fails. The fault plan says, for
  the n-th call made so far, whether the backend refuses it (unreachable server, lost
  connection, denied permission) and with which exception. A call the plan lets
  through can still fail by what it asks for. Either way the fault the call raises is
  appended to \<open>raised\<close>.
\<close>

definition raises :: "backend \<Rightarrow> call \<Rightarrow> fault option" where
  "raises s c = fault_plan s (length (trace s)) c"

definition record_call :: "call \<Rightarrow> backend \<Rightarrow> backend" where
  "record_call c s = s\<lparr>trace := trace s @ [c]\<rparr>"

definition note_fault :: "fault \<Rightarrow> backend \<Rightarrow> backend" where
  "note_fault f s = s\<lparr>raised := raised s @ [f]\<rparr>"

definition backend_call :: "call \<Rightarrow> 'a io \<Rightarrow> 'a io" where
  "backend_call c sem s =
     (case raises s c of
        Some f \<Rightarrow> (Inl f, note_fault f (record_call c s))
      | None \<Rightarrow>
          (case sem (record_call c s) of
             (Inl f, s') \<Rightarrow> (Inl f, note_fault f s')
           | (Inr v, s') \<Rightarrow> (Inr v, s')))"

definition no_faults :: "nat \<Rightarrow> call \<Rightarrow> fault option" where
  "no_faults i c = None"

definition healthy :: "backend \<Rightarrow> bool" where
  "healthy s = (fault_plan s = no_faults)"

subsection \<open>Pooled connections and their transactions\<close>

text \<open>
  \<^verbatim>\<open>engine.connect()\<close> checks a connection out of the pool. Its first statement begins
  a transaction; the transaction works on its own view of the table until
  \<^verbatim>\<open>conn.commit()\<close> publishes it. Closing the connection rolls back what was not
  committed and gives the connection back to the pool.
\<close>

definition engine_connect :: "unit io" where
  "engine_connect =
     backend_call EngineConnect
       (\<lambda>s. (Inr (), s\<lparr>checked_out := checked_out s + 1, tx := None\<rparr>))"

definition conn_close :: "backend \<Rightarrow> backend" where
  "conn_close s = (record_call ConnClose s)\<lparr>tx := None, checked_out := checked_out s - 1\<rparr>"

text \<open>
  \<^verbatim>\<open>with engine.connect() as conn: body\<close>: the connection is closed when the body
  returns and when it raises, and the body's outcome is passed on.
\<close>

definition with_connection :: "'a io \<Rightarrow> 'a io" where
  "with_connection body =
     bind engine_connect (\<lambda>_ s. case body s of (r, s') \<Rightarrow> (r, conn_close s'))"

definition view :: "backend \<Rightarrow> row list option" where
  "view s = (case tx s of None \<Rightarrow> tbl s | Some w \<Rightarrow> w)"

definition undefined_table :: fault where
  "undefined_table = Fault ProgrammingError ''relation test_connection does not exist''"

definition new_row :: "string \<Rightarrow> backend \<Rightarrow> row" where
  "new_row msg s = \<lparr>row_id = seq s, message = msg, created_at = clock s\<rparr>"

text \<open>\<^verbatim>\<open>ORDER BY id DESC LIMIT 10\<close>.\<close>

definition recent10 :: "row list \<Rightarrow> row list" where
  "recent10 rs = take 10 (rev (sort_key row_id rs))"

text \<open>
  What each statement does inside the transaction. The sequence behind the
  \<^verbatim>\<open>SERIAL\<close> column starts at 1 with the table and is advanced by every insert; an
  advance is not undone by a rollback.
\<close>

fun run_stmt :: "stmt \<Rightarrow> result io" where
  "run_stmt SelectVersion s = (Inr (Scalar (JStr (pg_version s))), s\<lparr>tx := Some (view s)\<rparr>)"
| "run_stmt CreateTableIfNotExists s =
     (case view s of
        None \<Rightarrow> (Inr NoRows, s\<lparr>tx := Some (Some []), seq := 1\<rparr>)
      | Some rs \<Rightarrow> (Inr NoRows, s\<lparr>tx := Some (Some rs)\<rparr>))"
| "run_stmt (InsertReturning msg) s =
     (case view s of
        None \<Rightarrow> (Inl undefined_table, s\<lparr>tx := Some None\<rparr>)
      | Some rs \<Rightarrow>
          (Inr (Rows [new_row msg s]),
           s\<lparr>tx := Some (Some (rs @ [new_row msg s])), seq := seq s + 1\<rparr>))"
| "run_stmt SelectRecent10 s =
     (case view s of
        None \<Rightarrow> (Inl undefined_table, s\<lparr>tx := Some None\<rparr>)
      | Some rs \<Rightarrow> (Inr (Rows (recent10 rs)), s\<lparr>tx := Some (Some rs)\<rparr>))"
| "run_stmt (InsertMessage msg) s =
     (case view s of
        None \<Rightarrow> (Inl undefined_table, s\<lparr>tx := Some None\<rparr>)
      | Some rs \<Rightarrow>
          (Inr NoRows, s\<lparr>tx := Some (Some (rs @ [new_row msg s])), seq := seq s + 1\<rparr>))"
| "run_stmt SelectCount s =
     (case view s of
        None \<Rightarrow> (Inl undefined_table, s\<lparr>tx := Some None\<rparr>)
      | Some rs \<Rightarrow> (Inr (Scalar (JInt (int (length rs)))), s\<lparr>tx := Some (Some rs)\<rparr>))"

definition execute :: "stmt \<Rightarrow> result io" where
  "execute q = backend_call (Execute q) (run_stmt q)"

definition commit :: "unit io" where
  "commit = backend_call Commit (\<lambda>s. (Inr (), s\<lparr>tbl := view s, tx := None\<rparr>))"

text \<open>\<^verbatim>\<open>result.scalar()\<close>, \<^verbatim>\<open>result.fetchone()\<close> and \<^verbatim>\<open>result.fetchall()\<close>.\<close>

fun scalar :: "result \<Rightarrow> json" where
  "scalar (Scalar v) = v"
| "scalar (Rows rs) = (case rs of [] \<Rightarrow> JNull | r # _ \<Rightarrow> JInt (row_id r))"
| "scalar NoRows = JNull"

fun fetchone :: "result \<Rightarrow> row option" where
  "fetchone (Rows (r # rs)) = Some r"
| "fetchone _ = None"

fun fetchall :: "result \<Rightarrow> row list" where
  "fetchall (Rows rs) = rs"
| "fetchall _ = []"

text \<open>\<^verbatim>\<open>row[i]\<close> on the value of \<^verbatim>\<open>fetchone()\<close>: \<^verbatim>\<open>None\<close> is not subscriptable.\<close>

definition subscript :: "row option \<Rightarrow> (row \<Rightarrow> 'a) \<Rightarrow> 'a io" where
  "subscript r col =
     (case r of
        None \<Rightarrow> raise (Fault TypeError ''NoneType object is not subscriptable'')
      | Some x \<Rightarrow> ret (col x))"

subsection \<open>Raw connections\<close>

text \<open>
  \<^verbatim>\<open>engine.raw_connection()\<close> checks a driver connection out of the same pool; it starts
  in a transactional isolation level, and level 0 is autocommit.
\<close>

definition raw_connection :: "unit io" where
  "raw_connection =
     backend_call RawConnection
       (\<lambda>s. (Inr (), s\<lparr>checked_out := checked_out s + 1, isolation := 1\<rparr>))"

definition set_isolation_level :: "nat \<Rightarrow> unit io" where
  "set_isolation_level n = backend_call (SetIsolationLevel n) (\<lambda>s. (Inr (), s\<lparr>isolation := n\<rparr>))"

definition cursor :: "unit io" where
  "cursor =
     backend_call Cursor (\<lambda>s. (Inr (), s\<lparr>cursors_open := cursors_open s + 1, cursor_rows := []\<rparr>))"

text \<open>
  The texts given to \<^verbatim>\<open>cursor.execute\<close>. The catalog lookup binds \<^verbatim>\<open>db_name\<close> as a
  parameter; the other two are f-strings that put \<^verbatim>\<open>db_name\<close>, as it came, between
  two double quotes.
\<close>

definition dq :: char where
  "dq = CHR 0x22"

definition nul :: char where
  "nul = CHR 0x00"

definition select_database_sql :: string where
  "select_database_sql = ''SELECT 1 FROM pg_database WHERE datname = %s''"

definition create_database_sql :: "string \<Rightarrow> string" where
  "create_database_sql db_name = ''CREATE DATABASE '' @ [dq] @ db_name @ [dq]"

definition drop_database_sql :: "string \<Rightarrow> string" where
  "drop_database_sql db_name = ''DROP DATABASE IF EXISTS '' @ [dq] @ db_name @ [dq]"

text \<open>
  How the text reaches the server and how the server reads it. The driver hands the
  statement over as a C string, which ends at the first NUL. After the opening quote
  the server reads a quoted identifier: two double quotes in a row stand for one, a
  single one ends the name. It refuses a name that never ends and a name of length
  zero. What follows the name is nothing, blanks, or a \<^verbatim>\<open>--\<close> comment up to the end of
  the line; anything else is for the server's grammar to accept (an option clause) or
  refuse. The name the statement acts on is the identifier read, shortened by the
  server.
\<close>

definition c_string :: "string \<Rightarrow> string" where
  "c_string t = takeWhile (\<lambda>c. c \<noteq> nul) t"

definition after :: "string \<Rightarrow> string \<Rightarrow> string option" where
  "after p t = (if take (length p) t = p then Some (drop (length p) t) else None)"

fun quoted_ident :: "string \<Rightarrow> (string \<times> string) option" where
  "quoted_ident [] = None"
| "quoted_ident [c] = (if c = dq then Some ([], []) else None)"
| "quoted_ident (c # c' # cs) =
     (if c = dq then
        (if c' = dq then map_option (\<lambda>(n, r). (dq # n, r)) (quoted_ident cs)
         else Some ([], c' # cs))
      else map_option (\<lambda>(n, r). (c # n, r)) (quoted_ident (c' # cs)))"

definition blank :: "char \<Rightarrow> bool" where
  "blank c = (c = CHR '' '' \<or> c = CHR 0x09 \<or> c = CHR 0x0A \<or> c = CHR 0x0D)"

definition ignorable :: "string \<Rightarrow> bool" where
  "ignorable r =
     (let t = dropWhile blank r
      in t = [] \<or> (take 2 t = ''--'' \<and> CHR 0x0A \<notin> set t \<and> CHR 0x0D \<notin> set t))"

definition syntax_error :: "string \<Rightarrow> fault" where
  "syntax_error what = Fault ProgrammingError what"

definition read_name :: "backend \<Rightarrow> string \<Rightarrow> fault + string" where
  "read_name s body =
     (case quoted_ident body of
        None \<Rightarrow> Inl (syntax_error ''unterminated quoted identifier'')
      | Some (n, r) \<Rightarrow>
          (if n = [] then Inl (syntax_error ''zero-length delimited identifier'')
           else if ignorable r \<or> tail_ok s r then Inr (clip s n)
           else Inl (syntax_error ''syntax error'')))"

definition in_transaction_block :: "string \<Rightarrow> fault" where
  "in_transaction_block what =
     Fault OtherException (what @ '' cannot run inside a transaction block'')"

text \<open>
  The three statements. The driver refuses to bind a string that holds a NUL; the
  server compares the bound name, shortened like any name, with the catalog. It
  refuses \<^verbatim>\<open>CREATE DATABASE\<close> and \<^verbatim>\<open>DROP DATABASE\<close> inside a transaction, and refuses
  to create a database whose name is taken.
\<close>

definition lookup_database :: "string list \<Rightarrow> unit io" where
  "lookup_database params s =
     (case params of
        [n] \<Rightarrow>
          (if nul \<in> set n
           then (Inl (Fault ValueError ''A string literal cannot contain NUL (0x00) characters.''), s)
           else (Inr (), s\<lparr>cursor_rows := (if clip s n \<in> databases s then [[1]] else [])\<rparr>))
      | _ \<Rightarrow> (Inl (Fault ProgrammingError ''wrong number of parameters''), s))"

definition create_database :: "string \<Rightarrow> unit io" where
  "create_database body s =
     (case read_name s body of
        Inl f \<Rightarrow> (Inl f, s)
      | Inr n \<Rightarrow>
          (if isolation s \<noteq> 0 then (Inl (in_transaction_block ''CREATE DATABASE''), s)
           else if n \<in> databases s
           then (Inl (Fault ProgrammingError ''database already exists''), s)
           else (Inr (), s\<lparr>databases := insert n (databases s), cursor_rows := []\<rparr>)))"

definition drop_database_if_exists :: "string \<Rightarrow> unit io" where
  "drop_database_if_exists body s =
     (case read_name s body of
        Inl f \<Rightarrow> (Inl f, s)
      | Inr n \<Rightarrow>
          (if isolation s \<noteq> 0 then (Inl (in_transaction_block ''DROP DATABASE''), s)
           else (Inr (), s\<lparr>databases := databases s - {n}, cursor_rows := []\<rparr>)))"

definition run_raw :: "string \<Rightarrow> string list \<Rightarrow> unit io" where
  "run_raw text params s =
     (if text = select_database_sql then lookup_database params s
      else
        (case after (''CREATE DATABASE '' @ [dq]) (c_string text) of
           Some body \<Rightarrow> create_database body s
         | None \<Rightarrow>
             (case after (''DROP DATABASE IF EXISTS '' @ [dq]) (c_string text) of
                Some body \<Rightarrow> drop_database_if_exists body s
              | None \<Rightarrow> (Inl (syntax_error ''syntax error''), s))))"

definition cursor_execute :: "string \<Rightarrow> string list \<Rightarrow> unit io" where
  "cursor_execute text params = backend_call (CursorExecute text params) (run_raw text params)"

definition cursor_fetchone :: "int list option io" where
  "cursor_fetchone =
     backend_call CursorFetchone
       (\<lambda>s. case cursor_rows s of
               [] \<Rightarrow> (Inr None, s)
             | r # rs \<Rightarrow> (Inr (Some r), s\<lparr>cursor_rows := rs\<rparr>))"

definition cursor_close :: "unit io" where
  "cursor_close =
     backend_call CursorClose (\<lambda>s. (Inr (), s\<lparr>cursors_open := cursors_open s - 1\<rparr>))"

definition raw_close :: "unit io" where
  "raw_close =
     backend_call RawClose (\<lambda>s. (Inr (), s\<lparr>checked_out := checked_out s - 1\<rparr>))"

text \<open>\<^verbatim>\<open>if exists:\<close> on the value of \<^verbatim>\<open>cursor.fetchone()\<close>, a tuple or \<^verbatim>\<open>None\<close>.\<close>

fun truthy :: "int list option \<Rightarrow> bool" where
  "truthy None = False"
| "truthy (Some t) = (t \<noteq> [])"

text \<open>\<^verbatim>\<open>inspect(engine).get_table_names()\<close>.\<close>

definition get_table_names :: "string list io" where
  "get_table_names =
     backend_call GetTableNames
       (\<lambda>s. (Inr (case tbl s of
                     None \<Rightarrow> other_tables s
                   | Some rs \<Rightarrow> other_tables s @ [''test_connection'']), s))"

subsection \<open>The cache\<close>

text \<open>
  An entry holds its value and, when it expires, the second at which it does. An
  entry whose second has come is gone. \<^verbatim>\<open>TTL\<close> answers -2 for a missing key and -1 for
  a key that never expires.
\<close>

definition live :: "backend \<Rightarrow> string \<Rightarrow> (string \<times> nat option) option" where
  "live s k =
     (case cache s k of
        None \<Rightarrow> None
      | Some (v, None) \<Rightarrow> Some (v, None)
      | Some (v, Some e) \<Rightarrow> (if clock s < e then Some (v, Some e) else None))"

definition redis_ping :: "bool io" where
  "redis_ping = backend_call RedisPing (\<lambda>s. (Inr True, s))"

definition redis_info :: "string \<Rightarrow> (string \<times> string) list io" where
  "redis_info section = backend_call (RedisInfo section) (\<lambda>s. (Inr (server_info s), s))"

definition redis_set :: "string \<Rightarrow> string \<Rightarrow> nat \<Rightarrow> bool io" where
  "redis_set k v ex =
     backend_call (RedisSet k v ex)
       (\<lambda>s. (Inr True, s\<lparr>cache := (cache s)(k \<mapsto> (v, Some (clock s + ex)))\<rparr>))"

definition redis_get :: "string \<Rightarrow> string option io" where
  "redis_get k = backend_call (RedisGet k) (\<lambda>s. (Inr (map_option fst (live s k)), s))"

definition remaining :: "backend \<Rightarrow> string \<Rightarrow> int" where
  "remaining s k =
     (case live s k of
        None \<Rightarrow> - 2
      | Some (v, None) \<Rightarrow> - 1
      | Some (v, Some e) \<Rightarrow> int (e - clock s))"

definition redis_ttl :: "string \<Rightarrow> int io" where
  "redis_ttl k = backend_call (RedisTtl k) (\<lambda>s. (Inr (remaining s k), s))"

text \<open>Time passing between two requests.\<close>

definition tick :: "nat \<Rightarrow> backend \<Rightarrow> backend" where
  "tick d s = s\<lparr>clock := clock s + d\<rparr>"

section \<open>The handlers\<close>

text \<open>
  \<^verbatim>\<open>try: body except Exception as e: raise HTTPException(status_code=500, detail=...)\<close>
  and the narrower \<^verbatim>\<open>except OperationalError as e\<close> of \<^verbatim>\<open>pg_connect\<close>, which lets
  every other exception pass.
\<close>

type_synonym handler = "backend \<Rightarrow> response \<times> backend"

definition except_Exception :: "(fault \<Rightarrow> string) \<Rightarrow> json io \<Rightarrow> handler" where
  "except_Exception detail body s =
     (case body s of
        (Inr v, s') \<Rightarrow> (Ok v, s')
      | (Inl e, s') \<Rightarrow> (HTTPException 500 (detail e), s'))"

definition except_OperationalError :: "(fault \<Rightarrow> string) \<Rightarrow> json io \<Rightarrow> handler" where
  "except_OperationalError detail body s =
     (case body s of
        (Inr v, s') \<Rightarrow> (Ok v, s')
      | (Inl e, s') \<Rightarrow>
          (if exc_class_of e = OperationalError then (HTTPException 500 (detail e), s')
           else (Unhandled e, s')))"

definition json_opt :: "string option \<Rightarrow> json" where
  "json_opt v = (case v of None \<Rightarrow> JNull | Some x \<Rightarrow> JStr x)"

subsection \<open>Health\<close>

definition root :: handler where
  "root s = (Ok (JObj [(''status'', JStr ''ok''), (''service'', JStr ''testdb'')]), s)"

subsection \<open>PostgreSQL\<close>

definition pg_connect_body :: "json io" where
  "pg_connect_body =
     with_connection
       (bind (execute SelectVersion) (\<lambda>result.
        ret (JObj [(''status'', JStr ''connected''), (''version'', scalar result)])))"

definition pg_connect :: handler where
  "pg_connect =
     except_OperationalError (\<lambda>e. ''PG connection failed: '' @ str_exc e) pg_connect_body"

definition pg_create_table_body :: "json io" where
  "pg_create_table_body =
     with_connection
       (bind (execute CreateTableIfNotExists) (\<lambda>_.
        bind commit (\<lambda>_.
        ret (JObj [(''status'', JStr ''ok''),
                   (''message'', JStr ''test_connection table created'')]))))"

definition pg_create_table :: handler where
  "pg_create_table = except_Exception str_exc pg_create_table_body"

text \<open>
  \<^verbatim>\<open>str(row[2])\<close> renders a \<^verbatim>\<open>datetime\<close>; the rendering belongs to the Python library
  and is a parameter \<open>str_dt\<close> of the two handlers that use it.
\<close>

definition pg_insert_body :: "(nat \<Rightarrow> string) \<Rightarrow> string \<Rightarrow> json io" where
  "pg_insert_body str_dt msg =
     with_connection
       (bind (execute (InsertReturning msg)) (\<lambda>result.
        bind commit (\<lambda>_.
        bind (subscript (fetchone result) row_id) (\<lambda>r0.
        bind (subscript (fetchone result) message) (\<lambda>r1.
        bind (subscript (fetchone result) created_at) (\<lambda>r2.
        ret (JObj [(''status'', JStr ''inserted''), (''id'', JInt r0),
                   (''message'', JStr r1), (''created_at'', JStr (str_dt r2))])))))))"

definition pg_insert :: "(nat \<Rightarrow> string) \<Rightarrow> string \<Rightarrow> handler" where
  "pg_insert str_dt msg = except_Exception str_exc (pg_insert_body str_dt msg)"

definition row_json :: "(nat \<Rightarrow> string) \<Rightarrow> row \<Rightarrow> json" where
  "row_json str_dt r =
     JObj [(''id'', JInt (row_id r)), (''message'', JStr (message r)),
           (''created_at'', JStr (str_dt (created_at r)))]"

definition pg_read_body :: "(nat \<Rightarrow> string) \<Rightarrow> json io" where
  "pg_read_body str_dt =
     with_connection
       (bind (execute SelectRecent10) (\<lambda>result.
        ret (let rows = map (row_json str_dt) (fetchall result)
             in JObj [(''status'', JStr ''ok''), (''count'', JInt (int (length rows))),
                      (''rows'', JList rows)])))"

definition pg_read :: "(nat \<Rightarrow> string) \<Rightarrow> handler" where
  "pg_read str_dt = except_Exception str_exc (pg_read_body str_dt)"

definition pg_create_db_body :: "string \<Rightarrow> json io" where
  "pg_create_db_body db_name =
     bind raw_connection (\<lambda>_.
     bind (set_isolation_level 0) (\<lambda>_.
     bind cursor (\<lambda>_.
     bind (cursor_execute select_database_sql [db_name]) (\<lambda>_.
     bind cursor_fetchone (\<lambda>exists.
       if truthy exists then
         bind cursor_close (\<lambda>_.
         bind raw_close (\<lambda>_.
         ret (JObj [(''status'', JStr ''already_exists''), (''db_name'', JStr db_name)])))
       else
         bind (cursor_execute (create_database_sql db_name) []) (\<lambda>_.
         bind cursor_close (\<lambda>_.
         bind raw_close (\<lambda>_.
         ret (JObj [(''status'', JStr ''created''), (''db_name'', JStr db_name)])))))))))"

definition pg_create_db :: "string \<Rightarrow> handler" where
  "pg_create_db db_name = except_Exception str_exc (pg_create_db_body db_name)"

definition pg_drop_db_body :: "string \<Rightarrow> json io" where
  "pg_drop_db_body db_name =
     bind raw_connection (\<lambda>_.
     bind (set_isolation_level 0) (\<lambda>_.
     bind cursor (\<lambda>_.
     bind (cursor_execute (drop_database_sql db_name) []) (\<lambda>_.
     bind cursor_close (\<lambda>_.
     bind raw_close (\<lambda>_.
     ret (JObj [(''status'', JStr ''dropped''), (''db_name'', JStr db_name)])))))))"

definition pg_drop_db :: "string \<Rightarrow> handler" where
  "pg_drop_db db_name s =
     (if db_name \<in> {''openLLM'', ''postgres''}
      then (HTTPException 400 ''Cannot drop protected database'', s)
      else except_Exception str_exc (pg_drop_db_body db_name) s)"

definition pg_tables_body :: "json io" where
  "pg_tables_body =
     bind get_table_names (\<lambda>tables.
     ret (JObj [(''status'', JStr ''ok''), (''tables'', JList (map JStr tables))]))"

definition pg_tables :: handler where
  "pg_tables = except_Exception str_exc pg_tables_body"

subsection \<open>Redis\<close>

definition redis_connect_body :: "json io" where
  "redis_connect_body =
     bind redis_ping (\<lambda>pong.
     bind (redis_info ''server'') (\<lambda>info.
     ret (JObj [(''status'', JStr ''connected''), (''ping'', JBool pong),
                (''redis_version'', json_opt (map_of info ''redis_version''))])))"

definition redis_connect :: handler where
  "redis_connect =
     except_Exception (\<lambda>e. ''Redis connection failed: '' @ str_exc e) redis_connect_body"

definition redis_write_body :: "string \<Rightarrow> string \<Rightarrow> json io" where
  "redis_write_body key val =
     bind (redis_set key val 300) (\<lambda>_.
     ret (JObj [(''status'', JStr ''written''), (''key'', JStr key), (''value'', JStr val),
                (''ttl'', JInt 300)]))"

definition redis_write :: "string \<Rightarrow> string \<Rightarrow> handler" where
  "redis_write key val = except_Exception str_exc (redis_write_body key val)"

definition redis_read_body :: "string \<Rightarrow> json io" where
  "redis_read_body key =
     bind (redis_get key) (\<lambda>val.
     bind (redis_ttl key) (\<lambda>ttl.
     ret (JObj [(''status'', JStr ''ok''), (''key'', JStr key), (''value'', json_opt val),
                (''ttl'', JInt ttl)])))"

definition redis_read :: "string \<Rightarrow> handler" where
  "redis_read key = except_Exception str_exc (redis_read_body key)"

subsection \<open>The combined test\<close>

text \<open>
  Each of the three sections has its own \<^verbatim>\<open>try\<close>; its \<^verbatim>\<open>except Exception\<close> stores
  an error entry instead of raising. \<open>str_time\<close> renders the float of
  \<^verbatim>\<open>time.time()\<close> inside the inserted message.
\<close>

definition catch_section :: "json io \<Rightarrow> backend \<Rightarrow> json \<times> backend" where
  "catch_section body s =
     (case body s of
        (Inr v, s') \<Rightarrow> (v, s')
      | (Inl e, s') \<Rightarrow> (JObj [(''status'', JStr ''error''), (''detail'', JStr (str_exc e))], s'))"

definition test_all_pg_connect :: "json io" where
  "test_all_pg_connect =
     with_connection
       (bind (execute SelectVersion) (\<lambda>result.
        ret (JObj [(''status'', JStr ''ok''), (''version'', scalar result)])))"

definition test_all_pg_readwrite :: "(nat \<Rightarrow> string) \<Rightarrow> json io" where
  "test_all_pg_readwrite str_time =
     with_connection
       (bind (execute CreateTableIfNotExists) (\<lambda>_.
        bind (\<lambda>s. execute (InsertMessage (''test_all at '' @ str_time (clock s))) s) (\<lambda>_.
        bind commit (\<lambda>_.
        bind (execute SelectCount) (\<lambda>result.
        ret (JObj [(''status'', JStr ''ok''), (''row_count'', scalar result)]))))))"

definition test_all_redis :: "json io" where
  "test_all_redis =
     bind redis_ping (\<lambda>pong.
     bind (redis_set ''testall_key'' ''testall_value'' 60) (\<lambda>_.
     bind (redis_get ''testall_key'') (\<lambda>val.
     ret (JObj [(''status'', JStr ''ok''), (''ping'', JBool pong),
                (''read_back'', json_opt val)]))))"

definition test_all :: "(nat \<Rightarrow> string) \<Rightarrow> handler" where
  "test_all str_time s =
     (case catch_section test_all_pg_connect s of (r1, s1) \<Rightarrow>
      case catch_section (test_all_pg_readwrite str_time) s1 of (r2, s2) \<Rightarrow>
      case catch_section test_all_redis s2 of (r3, s3) \<Rightarrow>
        (Ok (JObj [(''pg_connect'', r1), (''pg_readwrite'', r2), (''redis'', r3)]), s3))"

text \<open>The same request made \<open>n\<close> times in a row.\<close>

fun repeat_request :: "nat \<Rightarrow> handler \<Rightarrow> backend \<Rightarrow> response list \<times> backend" where
  "repeat_request 0 h s = ([], s)"
| "repeat_request (Suc n) h s =
     (case h s of (r, s') \<Rightarrow> (case repeat_request n h s' of (rs, s'') \<Rightarrow> (r # rs, s'')))"

section \<open>Observations and sample states\<close>

text \<open>
  The sequence is ahead of every stored identifier. It holds for a table that only
  this service has written to, and every handler keeps it.
\<close>

definition serial_ok :: "backend \<Rightarrow> bool" where
  "serial_ok s = (case tbl s of None \<Rightarrow> True | Some rs \<Rightarrow> \<forall>r\<in>set rs. row_id r < seq s)"

text \<open>
  A name the server reads back as it was written: not empty, and with neither a
  double quote nor a NUL in it.
\<close>

definition plain :: "string \<Rightarrow> bool" where
  "plain d = (d \<noteq> [] \<and> dq \<notin> set d \<and> nul \<notin> set d)"

text \<open>The calls made and the faults raised between two states of one run.\<close>

definition calls_between :: "backend \<Rightarrow> backend \<Rightarrow> call list" where
  "calls_between s s' = drop (length (trace s)) (trace s')"

definition faults_between :: "backend \<Rightarrow> backend \<Rightarrow> fault list" where
  "faults_between s s' = drop (length (raised s)) (raised s')"

text \<open>
  A computation tracks its faults when a fault it ends with is the one fault its
  calls raised, and a value it returns means that none was raised. It reports them
  when it may, besides, end with a fault of its own that no call raised.
\<close>

definition tracks :: "'a io \<Rightarrow> bool" where
  "tracks m =
     (\<forall>s. case m s of
            (Inl f, s') \<Rightarrow> raised s' = raised s @ [f]
          | (Inr v, s') \<Rightarrow> raised s' = raised s)"

definition reports :: "'a io \<Rightarrow> bool" where
  "reports m =
     (\<forall>s. case m s of
            (Inl f, s') \<Rightarrow> raised s' = raised s \<or> raised s' = raised s @ [f]
          | (Inr v, s') \<Rightarrow> raised s' = raised s)"

text \<open>The entry of a section in the body of \<^verbatim>\<open>/test-all\<close>.\<close>

fun entry :: "string \<Rightarrow> response \<Rightarrow> json option" where
  "entry k (Ok (JObj kvs)) = map_of kvs k"
| "entry k _ = None"

text \<open>
  Which backend a call goes to, and what it means for a backend to be reachable:
  an unreachable PostgreSQL refuses every connection attempt, an unreachable Redis
  every ping.
\<close>

fun pg_call :: "call \<Rightarrow> bool" where
  "pg_call RedisPing = False"
| "pg_call (RedisInfo section) = False"
| "pg_call (RedisSet k v ex) = False"
| "pg_call (RedisGet k) = False"
| "pg_call (RedisTtl k) = False"
| "pg_call c = True"

definition pg_up :: "backend \<Rightarrow> bool" where
  "pg_up s = (\<forall>i c. pg_call c \<longrightarrow> fault_plan s i c = None)"

definition pg_down :: "fault \<Rightarrow> backend \<Rightarrow> bool" where
  "pg_down f s = (\<forall>i. fault_plan s i EngineConnect = Some f)"

definition redis_up :: "backend \<Rightarrow> bool" where
  "redis_up s = (\<forall>i c. \<not> pg_call c \<longrightarrow> fault_plan s i c = None)"

definition redis_down :: "fault \<Rightarrow> backend \<Rightarrow> bool" where
  "redis_down f s = (\<forall>i. fault_plan s i RedisPing = Some f)"

text \<open>A plan that refuses one kind of call, whenever it is made.\<close>

definition refuse :: "call \<Rightarrow> fault \<Rightarrow> nat \<Rightarrow> call \<Rightarrow> fault option" where
  "refuse c f i c' = (if c' = c then Some f else None)"

definition idle :: backend where
  "idle =
     \<lparr>pg_version = ''PostgreSQL 16.2'', databases = {''postgres'', ''openLLM''},
      tbl = None, seq = 1, other_tables = [], tx = None, checked_out = 0,
      cursors_open = 0, isolation = 1, cursor_rows = [], cache = Map.empty,
      server_info = [(''redis_version'', ''7.2.4'')], clock = 1000, trace = [],
      raised = [], fault_plan = no_faults, tail_ok = (\<lambda>r. False), clip = take 63\<rparr>"

definition numbered :: "nat \<Rightarrow> row" where
  "numbered i = \<lparr>row_id = int i, message = ''hello from testdb'', created_at = 900 + i\<rparr>"

definition populated :: backend where
  "populated = idle\<lparr>tbl := Some (map numbered [1..<13]), seq := 13\<rparr>"

definition one_row :: backend where
  "one_row = idle\<lparr>tbl := Some [numbered 1], seq := 2\<rparr>"

definition denied :: fault where
  "denied = Fault ProgrammingError ''permission denied''"

definition refused :: fault where
  "refused = Fault ConnectionError ''Connection refused''"

definition pool_timeout :: fault where
  "pool_timeout = Fault OtherException ''QueuePool limit reached''"

definition unreachable :: fault where
  "unreachable = Fault OperationalError ''could not connect to server''"

text \<open>The two shapes an entry of \<^verbatim>\<open>/test-all\<close> can have.\<close>

fun is_ok_entry :: "json \<Rightarrow> bool" where
  "is_ok_entry (JObj ((k, v) # rest)) = (k = ''status'' \<and> v = JStr ''ok'')"
| "is_ok_entry _ = False"

fun is_error_entry :: "json \<Rightarrow> bool" where
  "is_error_entry (JObj [(k, v), (k', JStr d)]) =
     (k = ''status'' \<and> v = JStr ''error'' \<and> k' = ''detail'')"
| "is_error_entry _ = False"

definition error_entry :: "fault \<Rightarrow> json" where
  "error_entry f = JObj [(''status'', JStr ''error''), (''detail'', JStr (str_exc f))]"

definition pg_unreachable :: backend where
  "pg_unreachable = idle\<lparr>fault_plan := refuse EngineConnect unreachable\<rparr>"

definition redis_unreachable :: backend where
  "redis_unreachable = idle\<lparr>fault_plan := refuse RedisPing refused\<rparr>"

definition all_unreachable :: backend where
  "all_unreachable =
     idle\<lparr>fault_plan := (\<lambda>i c. if c = EngineConnect then Some unreachable
                                else if c = RedisPing then Some refused else None)\<rparr>"

definition pool_exhausted :: backend where
  "pool_exhausted = idle\<lparr>fault_plan := refuse EngineConnect pool_timeout\<rparr>"

definition create_denied :: backend where
  "create_denied =
     idle\<lparr>fault_plan := refuse (CursorExecute (create_database_sql ''test_newdb'') []) denied\<rparr>"

definition drop_denied :: backend where
  "drop_denied =
     idle\<lparr>fault_plan := refuse (CursorExecute (drop_database_sql ''test_newdb'') []) denied\<rparr>"

definition nothing_answers :: backend where
  "nothing_answers = idle\<lparr>fault_plan := (\<lambda>i c. Some unreachable)\<rparr>"

text \<open>The states between the sections of one \<^verbatim>\<open>/test-all\<close> request.\<close>

definition after_pg_connect :: "backend \<Rightarrow> backend" where
  "after_pg_connect s = snd (catch_section test_all_pg_connect s)"

definition after_pg_readwrite :: "(nat \<Rightarrow> string) \<Rightarrow> backend \<Rightarrow> backend" where
  "after_pg_readwrite str_time s =
     snd (catch_section (test_all_pg_readwrite str_time) (after_pg_connect s))"

text \<open>A backend that refuses the first call it gets and none after it.\<close>

definition hiccup :: backend where
  "hiccup = idle\<lparr>fault_plan := (\<lambda>i c. if i = 0 then Some unreachable else None)\<rparr>"

text \<open>
  Names with a double quote or a NUL in them, and a server that accepts an owner
  clause after the name.
\<close>

definition quoted_away :: string where
  "quoted_away = ''openLLM'' @ [dq] @ '' --''"

definition commented :: string where
  "commented = ''foo'' @ [dq] @ '' --''"

definition with_owner :: string where
  "with_owner = ''foo'' @ [dq] @ '' WITH OWNER '' @ [dq] @ ''postgres''"

definition with_nul :: string where
  "with_nul = ''ab'' @ [nul]"

definition lenient :: backend where
  "lenient = idle\<lparr>tail_ok := (\<lambda>r. r = '' WITH OWNER '' @ [dq] @ ''postgres'' @ [dq])\<rparr>"

definition stamp :: "nat \<Rightarrow> string" where
  "stamp t = (if t = 901 then ''2026-01-01 00:15:01'' else ''2026-01-01 00:16:40'')"

section \<open>Unfolding the calls\<close>

lemmas io_defs = ret_def raise_def bind_def backend_call_def raises_def record_call_def
  note_fault_def

lemmas pg_defs = engine_connect_def conn_close_def with_connection_def view_def execute_def
  commit_def subscript_def

lemmas raw_defs = raw_connection_def set_isolation_level_def cursor_def cursor_execute_def
  cursor_fetchone_def cursor_close_def raw_close_def

lemma healthy_plan: "healthy s \<Longrightarrow> fault_plan s i c = None"
  by (simp add: healthy_def no_faults_def)

lemma healthy_idle: "healthy idle"
  by (simp add: healthy_def idle_def)

lemma live_trace [simp]: "live (s\<lparr>trace := t\<rparr>) k = live s k"
  by (simp add: live_def split: option.splits prod.splits)

lemma remaining_trace [simp]: "remaining (s\<lparr>trace := t\<rparr>) k = remaining s k"
  by (simp add: remaining_def split: option.splits prod.splits)

section \<open>How the server reads a plain name\<close>

lemma quoted_ident_plain: "dq \<notin> set d \<Longrightarrow> quoted_ident (d @ [dq]) = Some (d, [])"
proof (induction d)
  case Nil
  show ?case by simp
next
  case (Cons c d)
  then have "quoted_ident (d @ [dq]) = Some (d, [])" and "c \<noteq> dq" by auto
  then show ?case by (cases "d @ [dq]") auto
qed

lemma c_string_plain: "nul \<notin> set t \<Longrightarrow> c_string t = t"
  by (auto simp: c_string_def)

lemma ignorable_Nil: "ignorable []"
  by (simp add: ignorable_def)

lemma read_name_plain: "plain d \<Longrightarrow> read_name s (d @ [dq]) = Inr (clip s d)"
  by (simp add: read_name_def plain_def quoted_ident_plain ignorable_Nil)

lemma nul_not_dq: "nul \<noteq> dq"
  by (simp add: nul_def dq_def)

lemma run_raw_lookup:
  "nul \<notin> set d \<Longrightarrow>
   run_raw select_database_sql [d] s =
     (Inr (), s\<lparr>cursor_rows := (if clip s d \<in> databases s then [[1]] else [])\<rparr>)"
  by (simp add: run_raw_def lookup_database_def)

lemma run_raw_create:
  assumes "plain d"
  shows "run_raw (create_database_sql d) [] s = create_database (d @ [dq]) s"
proof -
  have n: "nul \<notin> set (create_database_sql d)"
    using assms nul_not_dq by (auto simp: create_database_sql_def plain_def nul_def)
  have a: "after (''CREATE DATABASE '' @ [dq]) (create_database_sql d) = Some (d @ [dq])"
    by (simp add: after_def create_database_sql_def)
  have b: "create_database_sql d \<noteq> select_database_sql"
    by (simp add: create_database_sql_def select_database_sql_def)
  show ?thesis
    by (simp only: run_raw_def c_string_plain [OF n] a b if_False option.case)
qed

lemma run_raw_drop:
  assumes "plain d"
  shows "run_raw (drop_database_sql d) [] s = drop_database_if_exists (d @ [dq]) s"
proof -
  have n: "nul \<notin> set (drop_database_sql d)"
    using assms nul_not_dq by (auto simp: drop_database_sql_def plain_def nul_def)
  have a: "after (''DROP DATABASE IF EXISTS '' @ [dq]) (drop_database_sql d) = Some (d @ [dq])"
    by (simp add: after_def drop_database_sql_def)
  have c: "after (''CREATE DATABASE '' @ [dq]) (drop_database_sql d) = None"
    by (simp add: after_def drop_database_sql_def)
  have b: "drop_database_sql d \<noteq> select_database_sql"
    by (simp add: drop_database_sql_def select_database_sql_def)
  show ?thesis
    by (simp only: run_raw_def c_string_plain [OF n] a b c if_False option.case)
qed

section \<open>What a statement on the raw cursor leaves alone\<close>

lemma run_raw_frame:
  assumes "run_raw t p s = (r, s')"
  shows "trace s' = trace s" and "raised s' = raised s" and "fault_plan s' = fault_plan s"
    and "checked_out s' = checked_out s" and "cursors_open s' = cursors_open s"
    and "isolation s' = isolation s" and "tbl s' = tbl s" and "seq s' = seq s"
    and "tail_ok s' = tail_ok s" and "clip s' = clip s"
  using assms
  by (auto simp: run_raw_def lookup_database_def create_database_def
      drop_database_if_exists_def split: if_splits option.splits sum.splits list.splits)

section \<open>Dropping a database\<close>

lemma repeat_protected:
  "d \<in> {''openLLM'', ''postgres''} \<Longrightarrow>
   repeat_request n (pg_drop_db d) s =
     (replicate n (HTTPException 400 ''Cannot drop protected database''), s)"
  by (induction n) (simp_all add: pg_drop_db_def)

text \<open>
  C1. A request to drop \<open>postgres\<close> or \<open>openLLM\<close> is answered with HTTP 400 and
  leaves the whole backend state as it was, trace of backend calls included: no
  connection is taken and no statement is issued. The same holds for any number
  \<open>n\<close> of such requests in a row.
\<close>

theorem pg_drop_db_protected_rejected:
  "repeat_request n (pg_drop_db ''postgres'') s =
     (replicate n (HTTPException 400 ''Cannot drop protected database''), s) \<and>
   repeat_request n (pg_drop_db ''openLLM'') s =
     (replicate n (HTTPException 400 ''Cannot drop protected database''), s)"
  by (simp add: repeat_protected)

text \<open>The guard compares the whole string: the answer is 400 for the two names only.\<close>

lemma pg_drop_db_guard_exact:
  "(\<exists>detail. fst (pg_drop_db d s) = HTTPException 400 detail) \<longleftrightarrow>
     d = ''openLLM'' \<or> d = ''postgres''"
  by (auto simp: pg_drop_db_def except_Exception_def split: prod.splits sum.splits)

text \<open>
  Any other name reaches the statement once the connection, the isolation level and
  the cursor are obtained: the fourth call carries the text with the name between the
  quotes, as it came.
\<close>

lemma pg_drop_db_statement_text:
  "d \<noteq> ''openLLM'' \<and> d \<noteq> ''postgres'' \<and>
   fault_plan s (length (trace s)) RawConnection = None \<and>
   fault_plan s (length (trace s) + 1) (SetIsolationLevel 0) = None \<and>
   fault_plan s (length (trace s) + 2) Cursor = None \<longrightarrow>
   take 4 (calls_between s (snd (pg_drop_db d s))) =
     [RawConnection, SetIsolationLevel 0, Cursor, CursorExecute (drop_database_sql d) []]"
  by (auto simp: pg_drop_db_def except_Exception_def pg_drop_db_body_def io_defs raw_defs
      calls_between_def dest: run_raw_frame(1)
      split: prod.splits sum.splits option.splits if_splits)

text \<open>A plain name is the name of the database that goes.\<close>

lemma pg_drop_db_plain:
  assumes "healthy s" and "plain d" and "d \<noteq> ''openLLM''" and "d \<noteq> ''postgres''"
  shows "pg_drop_db d s =
    (Ok (JObj [(''status'', JStr ''dropped''), (''db_name'', JStr d)]),
     s\<lparr>trace := trace s @ [RawConnection, SetIsolationLevel 0, Cursor,
          CursorExecute (drop_database_sql d) [], CursorClose, RawClose],
        isolation := 0, cursor_rows := [], databases := databases s - {clip s d}\<rparr>)"
  using assms
  by (simp add: pg_drop_db_def except_Exception_def pg_drop_db_body_def io_defs raw_defs
      healthy_plan run_raw_drop drop_database_if_exists_def read_name_plain)

text \<open>
  C10 on the code. The guard is the exact comparison the claim describes, but the
  statement is not issued against the name that passed it. The name \<open>openLLM" --\<close>
  is neither of the two protected strings; between the quotes of the f-string it
  gives the text \<open>DROP DATABASE IF EXISTS "openLLM" --"\<close>, which the server reads as
  the statement for \<open>openLLM\<close> followed by a comment. The answer is \<open>dropped\<close> and the
  protected database is gone from the catalog.
\<close>

theorem pg_drop_db_quote_reaches_protected:
  "quoted_away \<noteq> ''openLLM'' \<and> quoted_away \<noteq> ''postgres'' \<and>
   databases idle = {''postgres'', ''openLLM''} \<and>
   drop_database_sql quoted_away =
     ''DROP DATABASE IF EXISTS '' @ [dq] @ ''openLLM'' @ [dq] @ '' --'' @ [dq] \<and>
   fst (pg_drop_db quoted_away idle) =
     Ok (JObj [(''status'', JStr ''dropped''), (''db_name'', JStr quoted_away)]) \<and>
   trace (snd (pg_drop_db quoted_away idle)) =
     [RawConnection, SetIsolationLevel 0, Cursor,
      CursorExecute (drop_database_sql quoted_away) [], CursorClose, RawClose] \<and>
   databases (snd (pg_drop_db quoted_away idle)) = {''postgres''}"
proof -
  have q: "quoted_away \<noteq> ''openLLM''" "quoted_away \<noteq> ''postgres''"
    by (simp_all add: quoted_away_def)
  have t: "drop_database_sql quoted_away =
     ''DROP DATABASE IF EXISTS '' @ [dq] @ ''openLLM'' @ [dq] @ '' --'' @ [dq]"
    by (simp add: drop_database_sql_def quoted_away_def)
  have f: "fault_plan idle i c = None" "trace idle = []" "isolation idle = 1"
    "databases idle = {''postgres'', ''openLLM''}" "clip idle = take 63" for i c
    by (simp_all add: idle_def no_faults_def)
  have r: "run_raw (drop_database_sql quoted_away) [] s =
      (if isolation s \<noteq> 0 then (Inl (in_transaction_block ''DROP DATABASE''), s)
       else (Inr (), s\<lparr>databases := databases s - {clip s ''openLLM''}, cursor_rows := []\<rparr>))"
    for s
    by (simp add: run_raw_def t select_database_sql_def c_string_def after_def dq_def nul_def
        drop_database_if_exists_def read_name_def ignorable_def blank_def)
  have a: "pg_drop_db quoted_away idle =
     (Ok (JObj [(''status'', JStr ''dropped''), (''db_name'', JStr quoted_away)]),
      idle\<lparr>trace := [RawConnection, SetIsolationLevel 0, Cursor,
          CursorExecute (drop_database_sql quoted_away) [], CursorClose, RawClose],
        isolation := 0, cursor_rows := [], databases := {''postgres''}\<rparr>)"
    using q
    by (simp add: pg_drop_db_def except_Exception_def pg_drop_db_body_def io_defs raw_defs
        f r insert_Diff_if)
  show ?thesis using q t by (simp add: a f)
qed

section \<open>Creating a database\<close>

lemma pg_create_db_present:
  assumes "healthy s" and "plain d" and "clip s d \<in> databases s"
  shows "pg_create_db d s =
    (Ok (JObj [(''status'', JStr ''already_exists''), (''db_name'', JStr d)]),
     s\<lparr>trace := trace s @ [RawConnection, SetIsolationLevel 0, Cursor,
          CursorExecute select_database_sql [d], CursorFetchone, CursorClose, RawClose],
        isolation := 0, cursor_rows := []\<rparr>)"
  using assms
  by (simp add: pg_create_db_def except_Exception_def pg_create_db_body_def io_defs raw_defs
      healthy_plan run_raw_lookup plain_def)

lemma pg_create_db_absent:
  assumes "healthy s" and "plain d" and "clip s d \<notin> databases s"
  shows "pg_create_db d s =
    (Ok (JObj [(''status'', JStr ''created''), (''db_name'', JStr d)]),
     s\<lparr>trace := trace s @ [RawConnection, SetIsolationLevel 0, Cursor,
          CursorExecute select_database_sql [d], CursorFetchone,
          CursorExecute (create_database_sql d) [], CursorClose, RawClose],
        isolation := 0, cursor_rows := [], databases := insert (clip s d) (databases s)\<rparr>)"
  using assms
  by (simp add: pg_create_db_def except_Exception_def pg_create_db_body_def io_defs raw_defs
      healthy_plan run_raw_lookup run_raw_create create_database_def read_name_plain plain_def)

text \<open>
  C4, as the code has it. Take a backend that raises no fault and a name that is not
  empty and holds neither a double quote nor a NUL; the server knows the name by its
  shortened form \<open>clip s d\<close>. \<^verbatim>\<open>/pg/create-db\<close> looks the name up in the catalog
  first. If it is there, the answer is \<open>already_exists\<close>, no create statement is
  issued and catalog, table and cache are untouched. If it is not, the
  create-database statement follows the lookup on the connection that was put in
  isolation level 0 (autocommit), the name enters the catalog and the answer is
  \<open>created\<close>; a second request with the same name then answers \<open>already_exists\<close>.
\<close>

theorem pg_create_db_lookup_then_create:
  "healthy s \<and> plain d \<longrightarrow>
   (clip s d \<in> databases s \<longrightarrow>
      fst (pg_create_db d s) =
        Ok (JObj [(''status'', JStr ''already_exists''), (''db_name'', JStr d)]) \<and>
      trace (snd (pg_create_db d s)) =
        trace s @ [RawConnection, SetIsolationLevel 0, Cursor,
          CursorExecute select_database_sql [d], CursorFetchone, CursorClose, RawClose] \<and>
      databases (snd (pg_create_db d s)) = databases s \<and>
      tbl (snd (pg_create_db d s)) = tbl s \<and>
      cache (snd (pg_create_db d s)) = cache s) \<and>
   (clip s d \<notin> databases s \<longrightarrow>
      fst (pg_create_db d s) =
        Ok (JObj [(''status'', JStr ''created''), (''db_name'', JStr d)]) \<and>
      trace (snd (pg_create_db d s)) =
        trace s @ [RawConnection, SetIsolationLevel 0, Cursor,
          CursorExecute select_database_sql [d], CursorFetchone,
          CursorExecute (create_database_sql d) [], CursorClose, RawClose] \<and>
      databases (snd (pg_create_db d s)) = insert (clip s d) (databases s) \<and>
      fst (pg_create_db d (snd (pg_create_db d s))) =
        Ok (JObj [(''status'', JStr ''already_exists''), (''db_name'', JStr d)]) \<and>
      databases (snd (pg_create_db d (snd (pg_create_db d s)))) =
        insert (clip s d) (databases s))"
proof (intro impI conjI)
  assume "healthy s \<and> plain d" and d: "clip s d \<in> databases s"
  then have h: "healthy s" and p: "plain d" by simp_all
  note r = pg_create_db_present [OF h p d]
  show "fst (pg_create_db d s) =
        Ok (JObj [(''status'', JStr ''already_exists''), (''db_name'', JStr d)])"
    by (simp add: r)
  show "trace (snd (pg_create_db d s)) =
        trace s @ [RawConnection, SetIsolationLevel 0, Cursor,
          CursorExecute select_database_sql [d], CursorFetchone, CursorClose, RawClose]"
    by (simp add: r)
  show "databases (snd (pg_create_db d s)) = databases s" by (simp add: r)
  show "tbl (snd (pg_create_db d s)) = tbl s" by (simp add: r)
  show "cache (snd (pg_create_db d s)) = cache s" by (simp add: r)
next
  assume "healthy s \<and> plain d" and d: "clip s d \<notin> databases s"
  then have h: "healthy s" and p: "plain d" by simp_all
  note r = pg_create_db_absent [OF h p d]
  define s1 where "s1 = snd (pg_create_db d s)"
  have h1: "healthy s1" using h by (simp add: s1_def r healthy_def)
  have c1: "clip s1 = clip s" by (simp add: s1_def r)
  have d1: "databases s1 = insert (clip s d) (databases s)" by (simp add: s1_def r)
  then have in1: "clip s1 d \<in> databases s1" by (simp add: c1)
  note r1 = pg_create_db_present [OF h1 p in1]
  show "fst (pg_create_db d s) =
        Ok (JObj [(''status'', JStr ''created''), (''db_name'', JStr d)])"
    by (simp add: r)
  show "trace (snd (pg_create_db d s)) =
        trace s @ [RawConnection, SetIsolationLevel 0, Cursor,
          CursorExecute select_database_sql [d], CursorFetchone,
          CursorExecute (create_database_sql d) [], CursorClose, RawClose]"
    by (simp add: r)
  show "databases (snd (pg_create_db d s)) = insert (clip s d) (databases s)"
    by (simp add: r)
  show "fst (pg_create_db d (snd (pg_create_db d s))) =
        Ok (JObj [(''status'', JStr ''already_exists''), (''db_name'', JStr d)])"
    unfolding s1_def [symmetric] by (simp add: r1)
  show "databases (snd (pg_create_db d (snd (pg_create_db d s)))) =
        insert (clip s d) (databases s)"
    unfolding s1_def [symmetric] by (simp add: r1 d1)
qed

lemma plain_samples: "plain ''test_newdb''" "plain ''postgres''"
  by (simp_all add: plain_def dq_def nul_def)

lemma clip_idle: "clip idle = take 63"
  by (simp add: idle_def)

theorem pg_create_db_lookup_then_create_witness:
  "healthy idle \<and> plain ''test_newdb'' \<and> plain ''postgres'' \<and>
   clip idle ''test_newdb'' \<notin> databases idle \<and> clip idle ''postgres'' \<in> databases idle \<and>
   fst (pg_create_db ''test_newdb'' idle) =
     Ok (JObj [(''status'', JStr ''created''), (''db_name'', JStr ''test_newdb'')]) \<and>
   databases (snd (pg_create_db ''test_newdb'' idle)) =
     {''test_newdb'', ''postgres'', ''openLLM''} \<and>
   fst (pg_create_db ''test_newdb'' (snd (pg_create_db ''test_newdb'' idle))) =
     Ok (JObj [(''status'', JStr ''already_exists''), (''db_name'', JStr ''test_newdb'')]) \<and>
   fst (pg_create_db ''postgres'' idle) =
     Ok (JObj [(''status'', JStr ''already_exists''), (''db_name'', JStr ''postgres'')]) \<and>
   databases (snd (pg_create_db ''postgres'' idle)) = databases idle"
proof -
  have a: "clip idle ''test_newdb'' \<notin> databases idle"
    and p: "clip idle ''postgres'' \<in> databases idle"
    and c: "clip idle ''test_newdb'' = ''test_newdb''"
    and d: "databases idle = {''postgres'', ''openLLM''}"
    by (simp_all add: idle_def)
  show ?thesis
    using healthy_idle plain_samples a p
      pg_create_db_lookup_then_create [of idle "''test_newdb''"]
      pg_create_db_lookup_then_create [of idle "''postgres''"]
    by (simp add: c d)
qed

text \<open>
  C4 as the claim words it, for every name, fails on a server that refuses nothing
  else. The empty name gives \<open>CREATE DATABASE ""\<close>, which the server refuses: the
  first request answers 500. A name with a NUL is refused when the lookup binds it.
  The name \<open>foo" --\<close> is looked up as it is, not found, and creates \<open>foo\<close>; the
  second request looks up the same string, finds nothing again, and is refused the
  creation of \<open>foo\<close>. The same happens with \<open>foo" WITH OWNER "postgres\<close> on a server
  that accepts the owner clause.
\<close>

theorem pg_create_db_every_name_counterexample:
  "healthy idle \<and> healthy lenient \<and>
   fst (pg_create_db [] idle) = HTTPException 500 ''zero-length delimited identifier'' \<and>
   fst (pg_create_db with_nul idle) =
     HTTPException 500 ''A string literal cannot contain NUL (0x00) characters.'' \<and>
   fst (pg_create_db commented idle) =
     Ok (JObj [(''status'', JStr ''created''), (''db_name'', JStr commented)]) \<and>
   databases (snd (pg_create_db commented idle)) = {''foo'', ''postgres'', ''openLLM''} \<and>
   fst (pg_create_db commented (snd (pg_create_db commented idle))) =
     HTTPException 500 ''database already exists'' \<and>
   fst (pg_create_db with_owner lenient) =
     Ok (JObj [(''status'', JStr ''created''), (''db_name'', JStr with_owner)]) \<and>
   fst (pg_create_db with_owner (snd (pg_create_db with_owner lenient))) =
     HTTPException 500 ''database already exists''"
proof -
  have hl: "healthy lenient" by (simp add: healthy_def lenient_def idle_def)
  have look: "run_raw select_database_sql [d] s =
      (Inr (), s\<lparr>cursor_rows := (if clip s d \<in> databases s then [[1]] else [])\<rparr>)"
    if "d = [] \<or> d = commented \<or> d = with_owner" for d s
    using that
    by (auto simp: run_raw_def lookup_database_def commented_def with_owner_def nul_def dq_def)
  have look_nul: "run_raw select_database_sql [with_nul] s =
      (Inl (Fault ValueError ''A string literal cannot contain NUL (0x00) characters.''), s)"
    for s
    by (simp add: run_raw_def lookup_database_def with_nul_def)
  have empty: "run_raw (create_database_sql []) [] s =
      (Inl (syntax_error ''zero-length delimited identifier''), s)" for s
    by (simp add: run_raw_def create_database_sql_def select_database_sql_def c_string_def
        after_def dq_def nul_def create_database_def read_name_def)
  have comm: "run_raw (create_database_sql commented) [] s =
      (if isolation s \<noteq> 0 then (Inl (in_transaction_block ''CREATE DATABASE''), s)
       else if clip s ''foo'' \<in> databases s
       then (Inl (Fault ProgrammingError ''database already exists''), s)
       else (Inr (), s\<lparr>databases := insert (clip s ''foo'') (databases s),
                        cursor_rows := []\<rparr>))" for s
    by (simp add: run_raw_def create_database_sql_def commented_def select_database_sql_def
        c_string_def after_def dq_def nul_def create_database_def read_name_def ignorable_def
        blank_def)
  have own: "run_raw (create_database_sql with_owner) [] s =
      (if isolation s \<noteq> 0 then (Inl (in_transaction_block ''CREATE DATABASE''), s)
       else if clip s ''foo'' \<in> databases s
       then (Inl (Fault ProgrammingError ''database already exists''), s)
       else (Inr (), s\<lparr>databases := insert (clip s ''foo'') (databases s),
                        cursor_rows := []\<rparr>))"
    if "tail_ok s = tail_ok lenient" for s
    using that
    by (simp add: run_raw_def create_database_sql_def with_owner_def select_database_sql_def
        c_string_def after_def dq_def nul_def create_database_def read_name_def ignorable_def
        blank_def lenient_def)
  have f: "fault_plan idle i c = None" "trace idle = []"
    "databases idle = {''postgres'', ''openLLM''}" "clip idle = take 63"
    "fault_plan lenient i c = None" "trace lenient = []"
    "databases lenient = {''postgres'', ''openLLM''}" "clip lenient = take 63" for i c
    by (simp_all add: idle_def lenient_def no_faults_def)
  have short: "take 63 commented = commented" "take 63 with_owner = with_owner"
    "commented \<notin> {''foo'', ''postgres'', ''openLLM''}"
    "with_owner \<notin> {''foo'', ''postgres'', ''openLLM''}"
    by (simp_all add: commented_def with_owner_def)
  have e1: "fst (pg_create_db [] idle) = HTTPException 500 ''zero-length delimited identifier''"
    by (simp add: pg_create_db_def except_Exception_def pg_create_db_body_def io_defs raw_defs
        f look empty syntax_error_def)
  have e2: "fst (pg_create_db with_nul idle) =
     HTTPException 500 ''A string literal cannot contain NUL (0x00) characters.''"
    by (simp add: pg_create_db_def except_Exception_def pg_create_db_body_def io_defs raw_defs
        f look_nul)
  have c1: "pg_create_db commented idle =
     (Ok (JObj [(''status'', JStr ''created''), (''db_name'', JStr commented)]),
      idle\<lparr>trace := [RawConnection, SetIsolationLevel 0, Cursor,
          CursorExecute select_database_sql [commented], CursorFetchone,
          CursorExecute (create_database_sql commented) [], CursorClose, RawClose],
        isolation := 0, cursor_rows := [],
        databases := {''foo'', ''postgres'', ''openLLM''}\<rparr>)"
    using short
    by (simp add: pg_create_db_def except_Exception_def pg_create_db_body_def io_defs raw_defs
        f look comm)
  have c2: "fst (pg_create_db commented (snd (pg_create_db commented idle))) =
     HTTPException 500 ''database already exists''"
    using short
    by (simp add: c1 pg_create_db_def except_Exception_def pg_create_db_body_def io_defs
        raw_defs f look comm)
  have o1: "pg_create_db with_owner lenient =
     (Ok (JObj [(''status'', JStr ''created''), (''db_name'', JStr with_owner)]),
      lenient\<lparr>trace := [RawConnection, SetIsolationLevel 0, Cursor,
          CursorExecute select_database_sql [with_owner], CursorFetchone,
          CursorExecute (create_database_sql with_owner) [], CursorClose, RawClose],
        isolation := 0, cursor_rows := [],
        databases := {''foo'', ''postgres'', ''openLLM''}\<rparr>)"
    using short
    by (simp add: pg_create_db_def except_Exception_def pg_create_db_body_def io_defs raw_defs
        f look own)
  have o2: "fst (pg_create_db with_owner (snd (pg_create_db with_owner lenient))) =
     HTTPException 500 ''database already exists''"
    using short
    by (simp add: o1 pg_create_db_def except_Exception_def pg_create_db_body_def io_defs
        raw_defs f look own)
  show ?thesis using healthy_idle hl e1 e2 c2 o2 by (simp add: c1 o1)
qed

section \<open>Creating the table\<close>

lemma pg_create_table_healthy:
  assumes "healthy s"
  shows "pg_create_table s =
    (Ok (JObj [(''status'', JStr ''ok''), (''message'', JStr ''test_connection table created'')]),
     (case tbl s of
        None \<Rightarrow> s\<lparr>tbl := Some [], seq := 1\<rparr>
      | Some rs \<Rightarrow> s)\<lparr>tx := None,
        trace := trace s @ [EngineConnect, Execute CreateTableIfNotExists, Commit, ConnClose]\<rparr>)"
  using assms
  by (simp add: pg_create_table_def except_Exception_def pg_create_table_body_def io_defs
      pg_defs healthy_plan split: option.splits)

text \<open>
  C7. On a backend that raises no fault, \<^verbatim>\<open>/pg/create-table\<close> answers with the same
  ok body whether or not the table exists; afterwards the table exists, with the rows
  it had before (none when it is new). A second request gives the same answer and
  changes neither the table nor its sequence: two requests leave what one leaves.
\<close>

theorem pg_create_table_idempotent:
  "healthy s \<longrightarrow>
   fst (pg_create_table s) =
     Ok (JObj [(''status'', JStr ''ok''),
               (''message'', JStr ''test_connection table created'')]) \<and>
   fst (pg_create_table (snd (pg_create_table s))) = fst (pg_create_table s) \<and>
   tbl (snd (pg_create_table s)) = Some (case tbl s of None \<Rightarrow> [] | Some rs \<Rightarrow> rs) \<and>
   tbl (snd (pg_create_table (snd (pg_create_table s)))) = tbl (snd (pg_create_table s)) \<and>
   seq (snd (pg_create_table (snd (pg_create_table s)))) = seq (snd (pg_create_table s))"
proof
  assume h: "healthy s"
  note r = pg_create_table_healthy [OF h]
  define s1 where "s1 = snd (pg_create_table s)"
  have h1: "healthy s1"
    using h by (simp add: s1_def r healthy_def split: option.splits)
  note r1 = pg_create_table_healthy [OF h1]
  have t1: "tbl s1 = Some (case tbl s of None \<Rightarrow> [] | Some rs \<Rightarrow> rs)"
    by (simp add: s1_def r split: option.splits)
  have a: "fst (pg_create_table s) =
     Ok (JObj [(''status'', JStr ''ok''),
               (''message'', JStr ''test_connection table created'')])"
    by (simp add: r)
  have b: "fst (pg_create_table s1) = fst (pg_create_table s)"
    by (simp add: r r1)
  have c: "tbl (snd (pg_create_table s1)) = tbl s1"
    by (simp add: r1 t1)
  have d: "seq (snd (pg_create_table s1)) = seq s1"
    by (simp add: r1 t1)
  show "fst (pg_create_table s) =
     Ok (JObj [(''status'', JStr ''ok''),
               (''message'', JStr ''test_connection table created'')]) \<and>
   fst (pg_create_table (snd (pg_create_table s))) = fst (pg_create_table s) \<and>
   tbl (snd (pg_create_table s)) = Some (case tbl s of None \<Rightarrow> [] | Some rs \<Rightarrow> rs) \<and>
   tbl (snd (pg_create_table (snd (pg_create_table s)))) = tbl (snd (pg_create_table s)) \<and>
   seq (snd (pg_create_table (snd (pg_create_table s)))) = seq (snd (pg_create_table s))"
    using a b c d t1 unfolding s1_def by simp
qed

theorem pg_create_table_idempotent_witness:
  "healthy one_row \<and>
   fst (pg_create_table one_row) =
     Ok (JObj [(''status'', JStr ''ok''),
               (''message'', JStr ''test_connection table created'')]) \<and>
   fst (pg_create_table (snd (pg_create_table one_row))) = fst (pg_create_table one_row) \<and>
   tbl (snd (pg_create_table one_row)) = Some [numbered 1] \<and>
   tbl (snd (pg_create_table (snd (pg_create_table one_row)))) = Some [numbered 1] \<and>
   healthy idle \<and>
   tbl (snd (pg_create_table idle)) = Some [] \<and>
   tbl (snd (pg_create_table (snd (pg_create_table idle)))) = Some []"
proof -
  have h: "healthy one_row" by (simp add: healthy_def one_row_def idle_def)
  have t: "tbl one_row = Some [numbered 1]" by (simp add: one_row_def)
  have t0: "tbl idle = None" by (simp add: idle_def)
  show ?thesis
    using h healthy_idle pg_create_table_idempotent [of one_row]
      pg_create_table_idempotent [of idle]
    by (simp add: t t0)
qed

section \<open>Cache write and read\<close>

lemma redis_write_healthy:
  assumes "healthy s"
  shows "redis_write k v s =
    (Ok (JObj [(''status'', JStr ''written''), (''key'', JStr k), (''value'', JStr v),
               (''ttl'', JInt 300)]),
     s\<lparr>cache := (cache s)(k \<mapsto> (v, Some (clock s + 300))),
       trace := trace s @ [RedisSet k v 300]\<rparr>)"
  using assms
  by (simp add: redis_write_def except_Exception_def redis_write_body_def io_defs
      redis_set_def healthy_plan)

lemma redis_read_healthy:
  assumes "healthy s"
  shows "fst (redis_read k s) =
    Ok (JObj [(''status'', JStr ''ok''), (''key'', JStr k),
              (''value'', json_opt (map_option fst (live s k))),
              (''ttl'', JInt (remaining s k))])"
  using assms
  by (simp add: redis_read_def except_Exception_def redis_read_body_def io_defs
      redis_get_def redis_ttl_def healthy_plan)

text \<open>
  C9. On a backend that raises no fault, \<^verbatim>\<open>/redis/write\<close> answers
  \<open>{status, key, value, ttl: 300}\<close> and the cache afterwards holds, under the key, the
  value with an expiry 300 seconds ahead, whatever it held under that key before. A
  \<^verbatim>\<open>/redis/read\<close> of the key \<open>d\<close> seconds later, \<open>d < 300\<close>, answers with the written
  value and the remaining time \<open>300 - d\<close>, which is positive and at most 300.
\<close>

theorem redis_write_then_read:
  "healthy s \<longrightarrow>
   fst (redis_write k v s) =
     Ok (JObj [(''status'', JStr ''written''), (''key'', JStr k), (''value'', JStr v),
               (''ttl'', JInt 300)]) \<and>
   cache (snd (redis_write k v s)) = (cache s)(k \<mapsto> (v, Some (clock s + 300))) \<and>
   (d < 300 \<longrightarrow>
      fst (redis_read k (tick d (snd (redis_write k v s)))) =
        Ok (JObj [(''status'', JStr ''ok''), (''key'', JStr k), (''value'', JStr v),
                  (''ttl'', JInt (300 - int d))]) \<and>
      0 < 300 - int d \<and> 300 - int d \<le> 300)"
proof (intro impI conjI)
  assume h: "healthy s"
  note w = redis_write_healthy [OF h]
  show "fst (redis_write k v s) =
     Ok (JObj [(''status'', JStr ''written''), (''key'', JStr k), (''value'', JStr v),
               (''ttl'', JInt 300)])"
    by (simp add: w)
  show "cache (snd (redis_write k v s)) = (cache s)(k \<mapsto> (v, Some (clock s + 300)))"
    by (simp add: w)
  assume d: "d < 300"
  define s1 where "s1 = tick d (snd (redis_write k v s))"
  have h1: "healthy s1" using h by (simp add: s1_def w tick_def healthy_def)
  have l: "live s1 k = Some (v, Some (clock s + 300))"
    using d by (simp add: s1_def w tick_def live_def)
  have c: "clock s1 = clock s + d" by (simp add: s1_def w tick_def)
  show "fst (redis_read k (tick d (snd (redis_write k v s)))) =
        Ok (JObj [(''status'', JStr ''ok''), (''key'', JStr k), (''value'', JStr v),
                  (''ttl'', JInt (300 - int d))])"
    unfolding s1_def [symmetric] using d
    by (simp add: redis_read_healthy [OF h1] l c json_opt_def remaining_def)
  show "0 < 300 - int d" using d by simp
  show "300 - int d \<le> 300" by simp
qed

theorem redis_write_then_read_witness:
  "healthy idle \<and> (120::nat) < 300 \<and>
   fst (redis_write ''k1'' ''v1'' idle) =
     Ok (JObj [(''status'', JStr ''written''), (''key'', JStr ''k1''), (''value'', JStr ''v1''),
               (''ttl'', JInt 300)]) \<and>
   fst (redis_read ''k1'' (tick 120 (snd (redis_write ''k1'' ''v1'' idle)))) =
     Ok (JObj [(''status'', JStr ''ok''), (''key'', JStr ''k1''), (''value'', JStr ''v1''),
               (''ttl'', JInt 180)])"
  using healthy_idle redis_write_then_read [of idle "''k1''" "''v1''" 120]
  by simp

section \<open>Reading the most recent rows\<close>

lemma descending_recent10: "sorted_wrt (\<lambda>a b. row_id b \<le> row_id a) (recent10 rs)"
proof -
  have "sorted_wrt (\<lambda>a b. row_id a \<le> row_id b) (sort_key row_id rs)"
    using sorted_sort_key [of row_id rs] by (simp add: sorted_map)
  then have "sorted_wrt (\<lambda>a b. row_id b \<le> row_id a) (rev (sort_key row_id rs))"
    by (simp add: sorted_wrt_rev)
  then show ?thesis
    unfolding recent10_def by (rule sorted_wrt_take)
qed

lemma length_recent10: "length (recent10 rs) = min 10 (length rs)"
  by (simp add: recent10_def)

lemma mset_recent10_split:
  "mset rs = mset (recent10 rs) + mset (drop 10 (rev (sort_key row_id rs)))"
proof -
  have "mset rs = mset (rev (sort_key row_id rs))" by simp
  also have "\<dots> = mset (take 10 (rev (sort_key row_id rs)) @ drop 10 (rev (sort_key row_id rs)))"
    by (simp only: append_take_drop_id)
  also have "\<dots> = mset (take 10 (rev (sort_key row_id rs))) +
      mset (drop 10 (rev (sort_key row_id rs)))"
    by (simp only: mset_append)
  finally show ?thesis by (simp only: recent10_def)
qed

lemma recent10_sub: "mset (recent10 rs) \<subseteq># mset rs"
  using mset_recent10_split [of rs] by (metis mset_subset_eq_add_left)

lemma recent10_largest:
  assumes "r \<in># mset rs - mset (recent10 rs)" and "r' \<in> set (recent10 rs)"
  shows "row_id r \<le> row_id r'"
proof -
  let ?xs = "rev (sort_key row_id rs)"
  have "mset rs - mset (recent10 rs) = mset (drop 10 ?xs)"
    using mset_recent10_split [of rs] by simp
  with assms(1) have r: "r \<in> set (drop 10 ?xs)" by simp
  have r': "r' \<in> set (take 10 ?xs)" using assms(2) by (simp add: recent10_def)
  have "sorted_wrt (\<lambda>a b. row_id a \<le> row_id b) (sort_key row_id rs)"
    using sorted_sort_key [of row_id rs] by (simp add: sorted_map)
  then have "sorted_wrt (\<lambda>a b. row_id b \<le> row_id a) (take 10 ?xs @ drop 10 ?xs)"
    by (simp add: sorted_wrt_rev)
  then have "\<forall>a\<in>set (take 10 ?xs). \<forall>b\<in>set (drop 10 ?xs). row_id b \<le> row_id a"
    unfolding sorted_wrt_append by blast
  then show ?thesis using r r' by blast
qed

lemma pg_read_healthy:
  assumes "healthy s" and "tbl s = Some rs"
  shows "fst (pg_read str_dt s) =
    Ok (JObj [(''status'', JStr ''ok''), (''count'', JInt (int (length (recent10 rs)))),
              (''rows'', JList (map (row_json str_dt) (recent10 rs)))])"
  using assms
  by (simp add: pg_read_def except_Exception_def pg_read_body_def io_defs pg_defs healthy_plan)

text \<open>
  C5, as the code has it. When the table exists and the backend raises no fault,
  \<^verbatim>\<open>/pg/read\<close> answers with a list \<open>out\<close> of \<open>min 10 n\<close> of the \<open>n\<close> stored rows, in
  descending order of id, such that no row left out has a larger id than a row
  returned; \<open>count\<close> is the length of \<open>out\<close>; and each row is an object whose \<open>id\<close>
  is the integer itself, whose \<open>message\<close> is the stored string and whose
  \<open>created_at\<close> is the text \<^verbatim>\<open>str()\<close> makes of the timestamp.
\<close>

theorem pg_read_recent_rows:
  "healthy s \<and> tbl s = Some rs \<longrightarrow>
   (\<exists>out.
      fst (pg_read str_dt s) =
        Ok (JObj [(''status'', JStr ''ok''), (''count'', JInt (int (length out))),
                  (''rows'', JList (map (\<lambda>r. JObj [(''id'', JInt (row_id r)),
                                                  (''message'', JStr (message r)),
                                                  (''created_at'', JStr (str_dt (created_at r)))])
                                       out))]) \<and>
      length out = min 10 (length rs) \<and>
      sorted_wrt (\<lambda>a b. row_id b \<le> row_id a) out \<and>
      mset out \<subseteq># mset rs \<and>
      (\<forall>r\<in>#mset rs - mset out. \<forall>r'\<in>set out. row_id r \<le> row_id r'))"
proof
  assume a: "healthy s \<and> tbl s = Some rs"
  have "fst (pg_read str_dt s) =
        Ok (JObj [(''status'', JStr ''ok''), (''count'', JInt (int (length (recent10 rs)))),
                  (''rows'', JList (map (\<lambda>r. JObj [(''id'', JInt (row_id r)),
                                                  (''message'', JStr (message r)),
                                                  (''created_at'', JStr (str_dt (created_at r)))])
                                       (recent10 rs)))])"
    using a pg_read_healthy [of s rs str_dt] by (simp add: row_json_def [abs_def])
  moreover have "\<forall>r\<in>#mset rs - mset (recent10 rs). \<forall>r'\<in>set (recent10 rs). row_id r \<le> row_id r'"
    using recent10_largest by blast
  ultimately show "\<exists>out.
      fst (pg_read str_dt s) =
        Ok (JObj [(''status'', JStr ''ok''), (''count'', JInt (int (length out))),
                  (''rows'', JList (map (\<lambda>r. JObj [(''id'', JInt (row_id r)),
                                                  (''message'', JStr (message r)),
                                                  (''created_at'', JStr (str_dt (created_at r)))])
                                       out))]) \<and>
      length out = min 10 (length rs) \<and>
      sorted_wrt (\<lambda>a b. row_id b \<le> row_id a) out \<and>
      mset out \<subseteq># mset rs \<and>
      (\<forall>r\<in>#mset rs - mset out. \<forall>r'\<in>set out. row_id r \<le> row_id r')"
    using length_recent10 [of rs] descending_recent10 [of rs] recent10_sub [of rs]
    by blast
qed

theorem pg_read_recent_rows_witness:
  "healthy populated \<and> tbl populated = Some (map numbered [1..<13]) \<and>
   (\<exists>out.
      fst (pg_read stamp populated) =
        Ok (JObj [(''status'', JStr ''ok''), (''count'', JInt (int (length out))),
                  (''rows'', JList (map (\<lambda>r. JObj [(''id'', JInt (row_id r)),
                                                  (''message'', JStr (message r)),
                                                  (''created_at'', JStr (stamp (created_at r)))])
                                       out))]) \<and>
      length out = 10 \<and>
      sorted_wrt (\<lambda>a b. row_id b \<le> row_id a) out \<and>
      mset out \<subseteq># mset (map numbered [1..<13]))"
proof -
  have h: "healthy populated \<and> tbl populated = Some (map numbered [1..<13])"
    by (simp add: healthy_def populated_def idle_def)
  have n: "min 10 (length (map numbered [1..<13])) = 10" by simp
  show ?thesis
    using h pg_read_recent_rows [of populated "map numbered [1..<13]" stamp]
    unfolding n by blast
qed

text \<open>
  C5 as the claim words it asks for the id as text. With one stored row of id 1 the
  answer carries the integer 1 in the \<open>id\<close> field, not a string.
\<close>

theorem pg_read_id_is_integer_counterexample:
  "fst (pg_read stamp one_row) =
     Ok (JObj [(''status'', JStr ''ok''), (''count'', JInt 1),
               (''rows'', JList [JObj [(''id'', JInt 1),
                                       (''message'', JStr ''hello from testdb''),
                                       (''created_at'', JStr ''2026-01-01 00:15:01'')]])]) \<and>
   fst (pg_read stamp one_row) \<noteq>
     Ok (JObj [(''status'', JStr ''ok''), (''count'', JInt 1),
               (''rows'', JList [JObj [(''id'', JStr ''1''),
                                       (''message'', JStr ''hello from testdb''),
                                       (''created_at'', JStr ''2026-01-01 00:15:01'')]])])"
proof -
  have h: "healthy one_row" by (simp add: healthy_def one_row_def idle_def)
  have t: "tbl one_row = Some [numbered 1]" by (simp add: one_row_def)
  show ?thesis
    by (simp add: pg_read_healthy [OF h t] recent10_def row_json_def numbered_def stamp_def)
qed

section \<open>Insert, then read\<close>

lemma pg_insert_healthy:
  assumes "healthy s" and "tbl s = Some rs"
  shows "pg_insert str_dt msg s =
    (Ok (JObj [(''status'', JStr ''inserted''), (''id'', JInt (seq s)), (''message'', JStr msg),
               (''created_at'', JStr (str_dt (clock s)))]),
     s\<lparr>tbl := Some (rs @ [\<lparr>row_id = seq s, message = msg, created_at = clock s\<rparr>]),
       seq := seq s + 1, tx := None,
       trace := trace s @ [EngineConnect, Execute (InsertReturning msg), Commit, ConnClose]\<rparr>)"
  using assms
  by (simp add: pg_insert_def except_Exception_def pg_insert_body_def io_defs pg_defs
      healthy_plan new_row_def)

lemma pg_insert_ok_table:
  assumes "healthy s" and "fst (pg_insert str_dt msg s) = Ok v"
  shows "tbl s \<noteq> None"
  using assms
  by (auto simp: pg_insert_def except_Exception_def pg_insert_body_def io_defs pg_defs
      healthy_plan split: option.splits)

lemma insort_before_last:
  "row_id a \<le> row_id x \<Longrightarrow>
   insort_key row_id a (ys @ [x]) = insort_key row_id a ys @ [x]"
  by (induction ys) auto

lemma sort_key_snoc_max:
  "\<forall>r\<in>set rs. row_id r < row_id x \<Longrightarrow>
   sort_key row_id (rs @ [x]) = sort_key row_id rs @ [x]"
  by (induction rs) (auto simp: insort_before_last)

lemma recent10_newest:
  assumes "\<forall>r\<in>set rs. row_id r < row_id x"
  shows "recent10 (rs @ [x]) = x # take 9 (rev (sort_key row_id rs))"
  using sort_key_snoc_max [OF assms] by (simp add: recent10_def numeral_eq_Suc)

text \<open>
  C8. On a backend that raises no fault and whose sequence is ahead of the stored
  ids, a \<^verbatim>\<open>/pg/insert\<close> that succeeds answers with the next id of the sequence, the
  message and the timestamp as text, and the \<^verbatim>\<open>/pg/read\<close> that follows returns at most
  10 rows in descending order of id, the first of which is the inserted row: it
  carries the message, and its id is larger than that of every other returned row.
\<close>

theorem pg_insert_then_read:
  "healthy s \<and> serial_ok s \<and> fst (pg_insert str_dt msg s) = Ok v \<longrightarrow>
   v = JObj [(''status'', JStr ''inserted''), (''id'', JInt (seq s)), (''message'', JStr msg),
             (''created_at'', JStr (str_dt (clock s)))] \<and>
   (\<exists>rest.
      fst (pg_read str_dt (snd (pg_insert str_dt msg s))) =
        Ok (JObj [(''status'', JStr ''ok''), (''count'', JInt (int (length rest) + 1)),
                  (''rows'',
                   JList (row_json str_dt \<lparr>row_id = seq s, message = msg, created_at = clock s\<rparr>
                          # map (row_json str_dt) rest))]) \<and>
      length rest < 10 \<and>
      sorted_wrt (\<lambda>a b. row_id b \<le> row_id a) rest \<and>
      (\<forall>r\<in>set rest. row_id r < seq s))"
proof
  assume a: "healthy s \<and> serial_ok s \<and> fst (pg_insert str_dt msg s) = Ok v"
  then have h: "healthy s" and inv: "serial_ok s" and ok: "fst (pg_insert str_dt msg s) = Ok v"
    by simp_all
  from pg_insert_ok_table [OF h ok] obtain rs where t: "tbl s = Some rs" by auto
  let ?x = "\<lparr>row_id = seq s, message = msg, created_at = clock s\<rparr>"
  let ?rest = "take 9 (rev (sort_key row_id rs))"
  note i = pg_insert_healthy [OF h t, of str_dt msg]
  define s1 where "s1 = snd (pg_insert str_dt msg s)"
  have h1: "healthy s1" using h by (simp add: s1_def i healthy_def)
  have t1: "tbl s1 = Some (rs @ [?x])" by (simp add: s1_def i)
  have below: "\<forall>r\<in>set rs. row_id r < row_id ?x"
    using inv t by (simp add: serial_ok_def)
  have top: "recent10 (rs @ [?x]) = ?x # ?rest"
    by (rule recent10_newest [OF below])
  have rd: "fst (pg_read str_dt s1) =
        Ok (JObj [(''status'', JStr ''ok''), (''count'', JInt (int (length ?rest) + 1)),
                  (''rows'', JList (row_json str_dt ?x # map (row_json str_dt) ?rest))])"
    by (simp add: pg_read_healthy [OF h1 t1] top)
  have "sorted_wrt (\<lambda>a b. row_id b \<le> row_id a) (?x # ?rest)"
    using descending_recent10 [of "rs @ [?x]"] by (simp only: top)
  then have srt: "sorted_wrt (\<lambda>a b. row_id b \<le> row_id a) ?rest" by simp
  have small: "\<forall>r\<in>set ?rest. row_id r < seq s"
    using below by (auto dest: in_set_takeD)
  have len: "length ?rest < 10" by simp
  have v: "v = JObj [(''status'', JStr ''inserted''), (''id'', JInt (seq s)),
      (''message'', JStr msg), (''created_at'', JStr (str_dt (clock s)))]"
    using ok by (simp add: i)
  show "v = JObj [(''status'', JStr ''inserted''), (''id'', JInt (seq s)), (''message'', JStr msg),
             (''created_at'', JStr (str_dt (clock s)))] \<and>
   (\<exists>rest.
      fst (pg_read str_dt (snd (pg_insert str_dt msg s))) =
        Ok (JObj [(''status'', JStr ''ok''), (''count'', JInt (int (length rest) + 1)),
                  (''rows'',
                   JList (row_json str_dt \<lparr>row_id = seq s, message = msg, created_at = clock s\<rparr>
                          # map (row_json str_dt) rest))]) \<and>
      length rest < 10 \<and>
      sorted_wrt (\<lambda>a b. row_id b \<le> row_id a) rest \<and>
      (\<forall>r\<in>set rest. row_id r < seq s))"
    using v rd srt small len unfolding s1_def by blast
qed

theorem pg_insert_then_read_witness:
  "healthy one_row \<and> serial_ok one_row \<and>
   fst (pg_insert stamp ''hi'' one_row) =
     Ok (JObj [(''status'', JStr ''inserted''), (''id'', JInt 2), (''message'', JStr ''hi''),
               (''created_at'', JStr ''2026-01-01 00:16:40'')]) \<and>
   (\<exists>rest.
      fst (pg_read stamp (snd (pg_insert stamp ''hi'' one_row))) =
        Ok (JObj [(''status'', JStr ''ok''), (''count'', JInt (int (length rest) + 1)),
                  (''rows'',
                   JList (row_json stamp \<lparr>row_id = 2, message = ''hi'', created_at = 1000\<rparr>
                          # map (row_json stamp) rest))]) \<and>
      length rest < 10 \<and>
      sorted_wrt (\<lambda>a b. row_id b \<le> row_id a) rest)"
proof -
  have h: "healthy one_row" by (simp add: healthy_def one_row_def idle_def)
  have t: "tbl one_row = Some [numbered 1]" by (simp add: one_row_def)
  have inv: "serial_ok one_row" by (simp add: serial_ok_def one_row_def numbered_def)
  have sq: "seq one_row = 2" and ck: "clock one_row = 1000"
    by (simp_all add: one_row_def idle_def)
  have ok: "fst (pg_insert stamp ''hi'' one_row) =
     Ok (JObj [(''status'', JStr ''inserted''), (''id'', JInt 2), (''message'', JStr ''hi''),
               (''created_at'', JStr ''2026-01-01 00:16:40'')])"
    by (simp add: pg_insert_healthy [OF h t] sq ck stamp_def)
  show ?thesis
    using h inv ok pg_insert_then_read [of one_row stamp "''hi''"
        "JObj [(''status'', JStr ''inserted''), (''id'', JInt 2), (''message'', JStr ''hi''),
               (''created_at'', JStr ''2026-01-01 00:16:40'')]"]
    unfolding sq ck by blast
qed

text \<open>
  The hypothesis on the sequence is kept by every handler that touches the table, on
  every path, faults included: a rollback leaves the rows and never moves the
  sequence back.
\<close>

lemma serial_ok_pg_create_table: "serial_ok s \<Longrightarrow> serial_ok (snd (pg_create_table s))"
  by (auto simp: serial_ok_def pg_create_table_def except_Exception_def
      pg_create_table_body_def io_defs pg_defs split: option.splits sum.splits prod.splits)

lemma serial_ok_pg_insert: "serial_ok s \<Longrightarrow> serial_ok (snd (pg_insert str_dt msg s))"
  by (auto simp: serial_ok_def pg_insert_def except_Exception_def new_row_def
      pg_insert_body_def io_defs pg_defs split: option.splits sum.splits prod.splits)

lemma serial_ok_pg_read: "serial_ok s \<Longrightarrow> serial_ok (snd (pg_read str_dt s))"
  by (auto simp: serial_ok_def pg_read_def except_Exception_def
      pg_read_body_def io_defs pg_defs split: option.splits sum.splits prod.splits)

lemma serial_ok_pg_connect: "serial_ok s \<Longrightarrow> serial_ok (snd (pg_connect s))"
  by (auto simp: serial_ok_def pg_connect_def except_OperationalError_def
      pg_connect_body_def io_defs pg_defs split: option.splits sum.splits prod.splits)

section \<open>Which faults a computation ends with\<close>

lemma tracks_reports: "tracks m \<Longrightarrow> reports m"
  by (auto simp: tracks_def reports_def split: prod.splits sum.splits)

lemma tracks_ret: "tracks (ret v)"
  by (simp add: tracks_def ret_def)

lemma reports_raise: "reports (raise f)"
  by (simp add: reports_def raise_def)

lemma tracks_bind:
  assumes "tracks m" and "\<And>v. tracks (k v)"
  shows "tracks (bind m k)"
  unfolding tracks_def
proof
  fix s
  obtain r s1 where m: "m s = (r, s1)" by (cases "m s")
  show "case bind m k s of
          (Inl f, s') \<Rightarrow> raised s' = raised s @ [f]
        | (Inr v, s') \<Rightarrow> raised s' = raised s"
  proof (cases r)
    case (Inl f)
    with m assms(1) show ?thesis
      by (auto simp: tracks_def bind_def dest: spec [of _ s])
  next
    case (Inr v)
    with m assms(1) have "raised s1 = raised s"
      by (auto simp: tracks_def dest: spec [of _ s])
    moreover have "case k v s1 of
          (Inl f, s') \<Rightarrow> raised s' = raised s1 @ [f]
        | (Inr w, s') \<Rightarrow> raised s' = raised s1"
      using assms(2) [of v] by (simp add: tracks_def)
    ultimately show ?thesis using m Inr
      by (auto simp: bind_def split: prod.splits sum.splits)
  qed
qed

lemma reports_bind:
  assumes "reports m" and "\<And>v. reports (k v)"
  shows "reports (bind m k)"
  unfolding reports_def
proof
  fix s
  obtain r s1 where m: "m s = (r, s1)" by (cases "m s")
  show "case bind m k s of
          (Inl f, s') \<Rightarrow> raised s' = raised s \<or> raised s' = raised s @ [f]
        | (Inr v, s') \<Rightarrow> raised s' = raised s"
  proof (cases r)
    case (Inl f)
    with m assms(1) show ?thesis
      by (auto simp: reports_def bind_def dest: spec [of _ s])
  next
    case (Inr v)
    with m assms(1) have "raised s1 = raised s"
      by (auto simp: reports_def dest: spec [of _ s])
    moreover have "case k v s1 of
          (Inl f, s') \<Rightarrow> raised s' = raised s1 \<or> raised s' = raised s1 @ [f]
        | (Inr w, s') \<Rightarrow> raised s' = raised s1"
      using assms(2) [of v] by (simp add: reports_def)
    ultimately show ?thesis using m Inr
      by (auto simp: bind_def split: prod.splits sum.splits)
  qed
qed

lemma tracks_backend_call:
  assumes "\<And>s r s'. sem s = (r, s') \<Longrightarrow> raised s' = raised s"
  shows "tracks (backend_call c sem)"
  unfolding tracks_def
proof
  fix s
  show "case backend_call c sem s of
          (Inl f, s') \<Rightarrow> raised s' = raised s @ [f]
        | (Inr v, s') \<Rightarrow> raised s' = raised s"
  proof (cases "raises s c")
    case (Some f)
    then show ?thesis by (simp add: backend_call_def note_fault_def record_call_def)
  next
    case None
    obtain r s' where e: "sem (record_call c s) = (r, s')" by (cases "sem (record_call c s)")
    from assms [OF e] have "raised s' = raised s" by (simp add: record_call_def)
    with None e show ?thesis
      by (cases r) (simp_all add: backend_call_def note_fault_def)
  qed
qed

lemma run_stmt_raised: "run_stmt q s = (r, s') \<Longrightarrow> raised s' = raised s"
  by (cases q) (auto simp: view_def split: option.splits)

lemma tracks_calls:
  "tracks engine_connect" "tracks (execute q)" "tracks commit"
  "tracks raw_connection" "tracks (set_isolation_level n)" "tracks cursor"
  "tracks (cursor_execute t p)" "tracks cursor_fetchone" "tracks cursor_close"
  "tracks raw_close" "tracks get_table_names"
  "tracks redis_ping" "tracks (redis_info section)" "tracks (redis_set k v ex)"
  "tracks (redis_get k)" "tracks (redis_ttl k)"
  unfolding engine_connect_def execute_def commit_def raw_connection_def
    set_isolation_level_def cursor_def cursor_execute_def cursor_fetchone_def
    cursor_close_def raw_close_def get_table_names_def redis_ping_def redis_info_def
    redis_set_def redis_get_def redis_ttl_def
  by (rule tracks_backend_call;
      auto dest: run_stmt_raised run_raw_frame(2) split: list.splits)+

lemma tracks_execute_of_state: "tracks (\<lambda>s. execute (q s) s)"
  using tracks_calls(2) by (simp add: tracks_def)

lemma tracks_with_connection:
  assumes "tracks body"
  shows "tracks (with_connection body)"
proof -
  have "tracks (\<lambda>s. case body s of (r, s') \<Rightarrow> (r, conn_close s'))"
    using assms
    by (auto simp: tracks_def conn_close_def record_call_def split: prod.splits sum.splits
        dest: spec)
  then show ?thesis
    unfolding with_connection_def by (intro tracks_bind tracks_calls)
qed

lemma reports_with_connection:
  assumes "reports body"
  shows "reports (with_connection body)"
proof -
  have "reports (\<lambda>s. case body s of (r, s') \<Rightarrow> (r, conn_close s'))"
    using assms
    by (auto simp: reports_def conn_close_def record_call_def split: prod.splits sum.splits
        dest: spec)
  then show ?thesis
    unfolding with_connection_def
    by (intro reports_bind) (simp_all add: tracks_reports tracks_calls)
qed

lemma reports_subscript: "reports (subscript r col)"
  by (cases r) (simp_all add: subscript_def reports_raise tracks_reports tracks_ret)

lemma tracks_sections:
  "tracks test_all_pg_connect" "tracks (test_all_pg_readwrite st)" "tracks test_all_redis"
  unfolding test_all_pg_connect_def test_all_pg_readwrite_def test_all_redis_def
  by (intro tracks_with_connection tracks_bind tracks_calls tracks_ret
      tracks_execute_of_state)+

lemma tracks_bodies:
  "tracks pg_connect_body" "tracks pg_create_table_body" "tracks (pg_read_body str_dt)"
  "tracks (pg_create_db_body d)" "tracks (pg_drop_db_body d)" "tracks pg_tables_body"
  "tracks redis_connect_body" "tracks (redis_write_body k v)" "tracks (redis_read_body k)"
  unfolding pg_connect_body_def pg_create_table_body_def pg_read_body_def
    pg_create_db_body_def pg_drop_db_body_def pg_tables_body_def redis_connect_body_def
    redis_write_body_def redis_read_body_def
  by (intro tracks_with_connection tracks_bind tracks_calls tracks_ret;
      simp add: tracks_bind tracks_calls tracks_ret)+

lemma reports_pg_insert_body: "reports (pg_insert_body str_dt msg)"
  unfolding pg_insert_body_def
  by (intro reports_with_connection reports_bind reports_subscript tracks_reports
      tracks_calls tracks_ret)

section \<open>The combined test\<close>

lemma test_all_unfold:
  "fst (test_all st s) =
     Ok (JObj [(''pg_connect'', fst (catch_section test_all_pg_connect s)),
               (''pg_readwrite'',
                fst (catch_section (test_all_pg_readwrite st)
                       (snd (catch_section test_all_pg_connect s)))),
               (''redis'',
                fst (catch_section test_all_redis
                       (snd (catch_section (test_all_pg_readwrite st)
                              (snd (catch_section test_all_pg_connect s))))))])"
  by (simp add: test_all_def split: prod.splits)

lemma catch_section_shape:
  assumes "\<And>s v s'. body s = (Inr v, s') \<Longrightarrow> \<exists>rest. v = JObj ((''status'', JStr ''ok'') # rest)"
  shows "(\<exists>rest. fst (catch_section body s) = JObj ((''status'', JStr ''ok'') # rest)) \<or>
         (\<exists>e. fst (catch_section body s) =
                JObj [(''status'', JStr ''error''), (''detail'', JStr (str_exc e))])"
proof (cases "body s")
  case (Pair r s')
  show ?thesis
  proof (cases r)
    case (Inl e)
    with Pair show ?thesis by (auto simp: catch_section_def)
  next
    case (Inr v)
    with Pair assms [of s v s'] show ?thesis by (auto simp: catch_section_def)
  qed
qed

lemma pg_connect_section_ok:
  "test_all_pg_connect s = (Inr v, s') \<Longrightarrow> \<exists>rest. v = JObj ((''status'', JStr ''ok'') # rest)"
  by (auto simp: test_all_pg_connect_def io_defs pg_defs
      split: option.splits sum.splits prod.splits)

lemma pg_readwrite_section_ok:
  "test_all_pg_readwrite st s = (Inr v, s') \<Longrightarrow>
   \<exists>rest. v = JObj ((''status'', JStr ''ok'') # rest)"
  by (auto simp: test_all_pg_readwrite_def io_defs pg_defs
      split: option.splits sum.splits prod.splits)

lemma redis_section_ok:
  "test_all_redis s = (Inr v, s') \<Longrightarrow> \<exists>rest. v = JObj ((''status'', JStr ''ok'') # rest)"
  by (auto simp: test_all_redis_def io_defs redis_ping_def redis_set_def redis_get_def
      split: option.splits sum.splits prod.splits)

text \<open>The PostgreSQL sections leave the plan, the version, the cache and the clock alone.\<close>

lemma pg_connect_section_env:
  "fault_plan (snd (catch_section test_all_pg_connect s)) = fault_plan s \<and>
   tbl (snd (catch_section test_all_pg_connect s)) = tbl s \<and>
   pg_version (snd (catch_section test_all_pg_connect s)) = pg_version s \<and>
   checked_out (snd (catch_section test_all_pg_connect s)) = checked_out s"
  by (simp add: catch_section_def test_all_pg_connect_def io_defs pg_defs
      split: option.splits sum.splits prod.splits)

lemma pg_readwrite_section_env:
  "fault_plan (snd (catch_section (test_all_pg_readwrite st) s)) = fault_plan s \<and>
   checked_out (snd (catch_section (test_all_pg_readwrite st) s)) = checked_out s"
  by (simp add: catch_section_def test_all_pg_readwrite_def io_defs pg_defs
      split: option.splits sum.splits prod.splits)

lemma pg_up_plan: "pg_up s \<Longrightarrow> pg_call c \<Longrightarrow> fault_plan s i c = None"
  by (simp add: pg_up_def)

lemma redis_up_plan: "redis_up s \<Longrightarrow> \<not> pg_call c \<Longrightarrow> fault_plan s i c = None"
  by (simp add: redis_up_def)

lemma pg_connect_section_up:
  "pg_up s \<Longrightarrow>
   fst (catch_section test_all_pg_connect s) =
     JObj [(''status'', JStr ''ok''), (''version'', JStr (pg_version s))]"
  by (simp add: catch_section_def test_all_pg_connect_def io_defs pg_defs pg_up_plan)

lemma pg_readwrite_section_up:
  "pg_up s \<Longrightarrow>
   fst (catch_section (test_all_pg_readwrite st) s) =
     JObj [(''status'', JStr ''ok''),
           (''row_count'', JInt (int (case tbl s of None \<Rightarrow> 0 | Some rs \<Rightarrow> length rs) + 1))]"
  by (simp add: catch_section_def test_all_pg_readwrite_def io_defs pg_defs pg_up_plan
      split: option.splits)

lemma pg_connect_section_down:
  "pg_down f s \<Longrightarrow>
   fst (catch_section test_all_pg_connect s) =
     JObj [(''status'', JStr ''error''), (''detail'', JStr (str_exc f))]"
  by (simp add: catch_section_def test_all_pg_connect_def io_defs pg_defs pg_down_def)

lemma pg_readwrite_section_down:
  "pg_down f s \<Longrightarrow>
   fst (catch_section (test_all_pg_readwrite st) s) =
     JObj [(''status'', JStr ''error''), (''detail'', JStr (str_exc f))]"
  by (simp add: catch_section_def test_all_pg_readwrite_def io_defs pg_defs pg_down_def)

lemma redis_section_up:
  "redis_up s \<Longrightarrow>
   fst (catch_section test_all_redis s) =
     JObj [(''status'', JStr ''ok''), (''ping'', JBool True),
           (''read_back'', JStr ''testall_value'')]"
  by (simp add: catch_section_def test_all_redis_def io_defs redis_ping_def redis_set_def
      redis_get_def redis_up_plan live_def json_opt_def)

lemma redis_section_down:
  "redis_down f s \<Longrightarrow>
   fst (catch_section test_all_redis s) =
     JObj [(''status'', JStr ''error''), (''detail'', JStr (str_exc f))]"
  by (simp add: catch_section_def test_all_redis_def io_defs redis_ping_def redis_down_def)
lemma pg_up_same_plan: "fault_plan s' = fault_plan s \<Longrightarrow> pg_up s' = pg_up s"
  by (simp add: pg_up_def)

lemma pg_down_same_plan: "fault_plan s' = fault_plan s \<Longrightarrow> pg_down f s' = pg_down f s"
  by (simp add: pg_down_def)

lemma redis_up_same_plan: "fault_plan s' = fault_plan s \<Longrightarrow> redis_up s' = redis_up s"
  by (simp add: redis_up_def)

lemma redis_down_same_plan: "fault_plan s' = fault_plan s \<Longrightarrow> redis_down f s' = redis_down f s"
  by (simp add: redis_down_def)

lemma entry_shape:
  "(\<exists>rest. r = JObj ((''status'', JStr ''ok'') # rest)) \<or>
   (\<exists>e. r = JObj [(''status'', JStr ''error''), (''detail'', JStr (str_exc e))]) \<Longrightarrow>
   is_ok_entry r \<or> is_error_entry r"
  by auto

text \<open>What a section that raised nothing returns.\<close>

lemma pg_connect_section_value:
  "test_all_pg_connect s = (Inr v, s') \<Longrightarrow>
   v = JObj [(''status'', JStr ''ok''), (''version'', JStr (pg_version s))]"
  by (auto simp: test_all_pg_connect_def io_defs pg_defs
      split: option.splits sum.splits prod.splits)

lemma pg_readwrite_section_value:
  "test_all_pg_readwrite st s = (Inr v, s') \<Longrightarrow>
   v = JObj [(''status'', JStr ''ok''),
             (''row_count'', JInt (int (case tbl s of None \<Rightarrow> 0 | Some rs \<Rightarrow> length rs) + 1))]"
  by (auto simp: test_all_pg_readwrite_def io_defs pg_defs
      split: option.splits sum.splits prod.splits)

lemma redis_section_value:
  "test_all_redis s = (Inr v, s') \<Longrightarrow>
   v = JObj [(''status'', JStr ''ok''), (''ping'', JBool True),
             (''read_back'', JStr ''testall_value'')]"
  by (auto simp: test_all_redis_def io_defs redis_ping_def redis_set_def redis_get_def
      live_def json_opt_def split: option.splits sum.splits prod.splits)

text \<open>
  The entry of a section is the error entry of the fault its calls raised, and the
  value of its body when they raised none.
\<close>

lemma section_faults:
  assumes "tracks body"
  shows "(\<forall>f\<in>set (faults_between s (snd (catch_section body s))).
            fst (catch_section body s) = error_entry f) \<and>
         (faults_between s (snd (catch_section body s)) = [] \<longrightarrow>
            (\<exists>v s'. body s = (Inr v, s') \<and> fst (catch_section body s) = v))"
proof -
  obtain r s' where b: "body s = (r, s')" by (cases "body s")
  show ?thesis
  proof (cases r)
    case (Inl f)
    with b assms have "raised s' = raised s @ [f]"
      by (auto simp: tracks_def dest: spec [of _ s])
    with b Inl show ?thesis
      by (simp add: catch_section_def faults_between_def error_entry_def)
  next
    case (Inr v)
    with b assms have "raised s' = raised s"
      by (auto simp: tracks_def dest: spec [of _ s])
    with b Inr show ?thesis
      by (simp add: catch_section_def faults_between_def)
  qed
qed

text \<open>Each section makes its first call, whatever state it starts from.\<close>

lemma pg_connect_section_calls:
  "count_list (calls_between s (snd (catch_section test_all_pg_connect s))) EngineConnect = 1"
  by (simp add: calls_between_def catch_section_def test_all_pg_connect_def io_defs pg_defs
      split: option.splits sum.splits prod.splits)

lemma pg_readwrite_section_calls:
  "count_list (calls_between s (snd (catch_section (test_all_pg_readwrite st) s)))
     EngineConnect = 1"
  by (simp add: calls_between_def catch_section_def test_all_pg_readwrite_def io_defs pg_defs
      split: option.splits sum.splits prod.splits)

lemma redis_section_calls:
  "count_list (calls_between s (snd (catch_section test_all_redis s))) RedisPing = 1"
  by (simp add: calls_between_def catch_section_def test_all_redis_def io_defs redis_ping_def
      redis_set_def redis_get_def split: option.splits sum.splits prod.splits)

lemma test_all_state:
  "snd (test_all st s) = snd (catch_section test_all_redis (after_pg_readwrite st s))"
  by (simp add: test_all_def after_pg_readwrite_def after_pg_connect_def split: prod.splits)

text \<open>
  C6. Whatever the backends do, \<^verbatim>\<open>/test-all\<close> answers 200 with exactly the three
  entries \<open>pg_connect\<close>, \<open>pg_readwrite\<close> and \<open>redis\<close>, each of them an ok entry or an
  error entry with a detail. Every section runs: between the states that delimit it,
  each PostgreSQL section makes its one attempt to connect and the Redis section its
  one ping, whatever the sections before it met. The entry of a section depends on
  the faults of that section alone: it is the error entry of a fault raised between
  the section's two states, and the ok entry (version, row count after the insert,
  value read back) when none was raised there. In particular: when PostgreSQL raises
  no fault its two entries are ok; when it refuses every connection both carry the
  refusal's message; independently of that, when Redis raises no fault its entry is
  ok, and when it refuses the ping its entry carries that refusal's message.
\<close>

theorem test_all_sections_isolated:
  "(\<exists>r1 r2 r3.
      fst (test_all st s) =
        Ok (JObj [(''pg_connect'', r1), (''pg_readwrite'', r2), (''redis'', r3)]) \<and>
      (is_ok_entry r1 \<or> is_error_entry r1) \<and>
      (is_ok_entry r2 \<or> is_error_entry r2) \<and>
      (is_ok_entry r3 \<or> is_error_entry r3)) \<and>
   count_list (calls_between s (after_pg_connect s)) EngineConnect = 1 \<and>
   count_list (calls_between (after_pg_connect s) (after_pg_readwrite st s)) EngineConnect = 1 \<and>
   count_list (calls_between (after_pg_readwrite st s) (snd (test_all st s))) RedisPing = 1 \<and>
   (\<forall>f\<in>set (faults_between s (after_pg_connect s)).
      entry ''pg_connect'' (fst (test_all st s)) = Some (error_entry f)) \<and>
   (faults_between s (after_pg_connect s) = [] \<longrightarrow>
      entry ''pg_connect'' (fst (test_all st s)) =
        Some (JObj [(''status'', JStr ''ok''), (''version'', JStr (pg_version s))])) \<and>
   (\<forall>f\<in>set (faults_between (after_pg_connect s) (after_pg_readwrite st s)).
      entry ''pg_readwrite'' (fst (test_all st s)) = Some (error_entry f)) \<and>
   (faults_between (after_pg_connect s) (after_pg_readwrite st s) = [] \<longrightarrow>
      entry ''pg_readwrite'' (fst (test_all st s)) =
        Some (JObj [(''status'', JStr ''ok''),
                    (''row_count'',
                     JInt (int (case tbl s of None \<Rightarrow> 0 | Some rs \<Rightarrow> length rs) + 1))])) \<and>
   (\<forall>f\<in>set (faults_between (after_pg_readwrite st s) (snd (test_all st s))).
      entry ''redis'' (fst (test_all st s)) = Some (error_entry f)) \<and>
   (faults_between (after_pg_readwrite st s) (snd (test_all st s)) = [] \<longrightarrow>
      entry ''redis'' (fst (test_all st s)) =
        Some (JObj [(''status'', JStr ''ok''), (''ping'', JBool True),
                    (''read_back'', JStr ''testall_value'')])) \<and>
   (pg_up s \<longrightarrow>
      entry ''pg_connect'' (fst (test_all st s)) =
        Some (JObj [(''status'', JStr ''ok''), (''version'', JStr (pg_version s))]) \<and>
      entry ''pg_readwrite'' (fst (test_all st s)) =
        Some (JObj [(''status'', JStr ''ok''),
                    (''row_count'',
                     JInt (int (case tbl s of None \<Rightarrow> 0 | Some rs \<Rightarrow> length rs) + 1))])) \<and>
   (pg_down f s \<longrightarrow>
      entry ''pg_connect'' (fst (test_all st s)) = Some (error_entry f) \<and>
      entry ''pg_readwrite'' (fst (test_all st s)) = Some (error_entry f)) \<and>
   (redis_up s \<longrightarrow>
      entry ''redis'' (fst (test_all st s)) =
        Some (JObj [(''status'', JStr ''ok''), (''ping'', JBool True),
                    (''read_back'', JStr ''testall_value'')])) \<and>
   (redis_down g s \<longrightarrow> entry ''redis'' (fst (test_all st s)) = Some (error_entry g))"
proof -
  define s1 where "s1 = after_pg_connect s"
  define s2 where "s2 = after_pg_readwrite st s"
  define r1 where "r1 = fst (catch_section test_all_pg_connect s)"
  define r2 where "r2 = fst (catch_section (test_all_pg_readwrite st) s1)"
  define r3 where "r3 = fst (catch_section test_all_redis s2)"
  have s1: "s1 = snd (catch_section test_all_pg_connect s)"
    by (simp add: s1_def after_pg_connect_def)
  have s2: "s2 = snd (catch_section (test_all_pg_readwrite st) s1)"
    by (simp add: s2_def s1_def after_pg_readwrite_def)
  have s3: "snd (test_all st s) = snd (catch_section test_all_redis s2)"
    by (simp add: test_all_state s2_def)
  have resp: "fst (test_all st s) =
      Ok (JObj [(''pg_connect'', r1), (''pg_readwrite'', r2), (''redis'', r3)])"
    by (simp add: test_all_unfold r1_def r2_def r3_def s1 s2)
  have p1: "fault_plan s1 = fault_plan s" and t1: "tbl s1 = tbl s"
    using pg_connect_section_env [of s] by (simp_all add: s1)
  have p2: "fault_plan s2 = fault_plan s"
    using pg_readwrite_section_env [of st s1] p1 by (simp add: s2)
  have shapes: "(is_ok_entry r1 \<or> is_error_entry r1) \<and> (is_ok_entry r2 \<or> is_error_entry r2) \<and>
      (is_ok_entry r3 \<or> is_error_entry r3)"
    unfolding r1_def r2_def r3_def
    by (intro conjI entry_shape catch_section_shape pg_connect_section_ok
        pg_readwrite_section_ok redis_section_ok)
  have calls: "count_list (calls_between s s1) EngineConnect = 1"
    "count_list (calls_between s1 s2) EngineConnect = 1"
    "count_list (calls_between s2 (snd (test_all st s))) RedisPing = 1"
    unfolding s1 s2 s3
    by (rule pg_connect_section_calls pg_readwrite_section_calls redis_section_calls)+
  have f1: "\<forall>f\<in>set (faults_between s s1). r1 = error_entry f"
    and n1: "faults_between s s1 = [] \<longrightarrow>
      r1 = JObj [(''status'', JStr ''ok''), (''version'', JStr (pg_version s))]"
    using section_faults [OF tracks_sections(1), of s] pg_connect_section_value [of s]
    unfolding s1 r1_def by blast+
  have f2: "\<forall>f\<in>set (faults_between s1 s2). r2 = error_entry f"
    and n2: "faults_between s1 s2 = [] \<longrightarrow>
      r2 = JObj [(''status'', JStr ''ok''),
                 (''row_count'',
                  JInt (int (case tbl s of None \<Rightarrow> 0 | Some rs \<Rightarrow> length rs) + 1))]"
    using section_faults [OF tracks_sections(2), of s1 st] pg_readwrite_section_value [of st s1]
    unfolding s2 r2_def t1 [symmetric] by blast+
  have f3: "\<forall>f\<in>set (faults_between s2 (snd (test_all st s))). r3 = error_entry f"
    and n3: "faults_between s2 (snd (test_all st s)) = [] \<longrightarrow>
      r3 = JObj [(''status'', JStr ''ok''), (''ping'', JBool True),
                 (''read_back'', JStr ''testall_value'')]"
    using section_faults [OF tracks_sections(3), of s2] redis_section_value [of s2]
    unfolding s3 r3_def by blast+
  have up: "r1 = JObj [(''status'', JStr ''ok''), (''version'', JStr (pg_version s))] \<and>
      r2 = JObj [(''status'', JStr ''ok''),
                 (''row_count'',
                  JInt (int (case tbl s of None \<Rightarrow> 0 | Some rs \<Rightarrow> length rs) + 1))]"
    if "pg_up s"
  proof -
    have "pg_up s1" using that pg_up_same_plan [OF p1] by simp
    then show ?thesis
      using that pg_connect_section_up [of s] pg_readwrite_section_up [of s1 st]
      by (simp add: r1_def r2_def t1)
  qed
  have down: "r1 = error_entry f \<and> r2 = error_entry f" if "pg_down f s"
  proof -
    have "pg_down f s1" using that pg_down_same_plan [OF p1] by simp
    then show ?thesis
      using that pg_connect_section_down [of f s] pg_readwrite_section_down [of f s1 st]
      by (simp add: r1_def r2_def error_entry_def)
  qed
  have rup: "r3 = JObj [(''status'', JStr ''ok''), (''ping'', JBool True),
                    (''read_back'', JStr ''testall_value'')]" if "redis_up s"
  proof -
    have "redis_up s2" using that redis_up_same_plan [OF p2] by simp
    then show ?thesis using redis_section_up [of s2] by (simp add: r3_def)
  qed
  have rdown: "r3 = error_entry g" if "redis_down g s"
  proof -
    have "redis_down g s2" using that redis_down_same_plan [OF p2] by simp
    then show ?thesis using redis_section_down [of g s2] by (simp add: r3_def error_entry_def)
  qed
  show ?thesis
    unfolding s1_def [symmetric] s2_def [symmetric]
    using shapes calls f1 n1 f2 n2 f3 n3 up down rup rdown by (simp add: resp)
qed

lemma response_from_entries:
  assumes "\<exists>r1 r2 r3.
      R = Ok (JObj [(''pg_connect'', r1), (''pg_readwrite'', r2), (''redis'', r3)]) \<and>
      (is_ok_entry r1 \<or> is_error_entry r1) \<and>
      (is_ok_entry r2 \<or> is_error_entry r2) \<and>
      (is_ok_entry r3 \<or> is_error_entry r3)"
    and "entry ''pg_connect'' R = Some x1"
    and "entry ''pg_readwrite'' R = Some x2"
    and "entry ''redis'' R = Some x3"
  shows "R = Ok (JObj [(''pg_connect'', x1), (''pg_readwrite'', x2), (''redis'', x3)])"
  using assms by auto

text \<open>A section whose own calls are let through raises nothing, whatever came before.\<close>

lemma pg_readwrite_section_quiet:
  assumes "\<forall>i c. length (trace s) \<le> i \<longrightarrow> fault_plan s i c = None"
  shows "faults_between s (snd (catch_section (test_all_pg_readwrite st) s)) = []"
  using assms
  by (simp add: faults_between_def catch_section_def test_all_pg_readwrite_def io_defs pg_defs
      split: option.splits)

lemma redis_section_quiet:
  assumes "\<forall>i c. length (trace s) \<le> i \<longrightarrow> fault_plan s i c = None"
  shows "faults_between s (snd (catch_section test_all_redis s)) = []"
  using assms
  by (simp add: faults_between_def catch_section_def test_all_redis_def io_defs
      redis_ping_def redis_set_def redis_get_def)

lemma section_trace_grows:
  "length (trace s) \<le> length (trace (snd (catch_section test_all_pg_connect s)))"
  "length (trace s) \<le> length (trace (snd (catch_section (test_all_pg_readwrite st) s)))"
  by (simp_all add: catch_section_def test_all_pg_connect_def test_all_pg_readwrite_def
      io_defs pg_defs split: option.splits sum.splits prod.splits)

lemma hiccup_run:
  "faults_between hiccup (after_pg_connect hiccup) = [unreachable]"
  "faults_between (after_pg_connect hiccup) (after_pg_readwrite stamp hiccup) = []"
  "faults_between (after_pg_readwrite stamp hiccup) (snd (test_all stamp hiccup)) = []"
proof -
  have hp: "fault_plan hiccup i c = (if i = 0 then Some unreachable else None)" for i c
    by (simp add: hiccup_def)
  have hf: "trace hiccup = []" "raised hiccup = []"
    by (simp_all add: hiccup_def idle_def)
  have h1: "after_pg_connect hiccup = hiccup\<lparr>trace := [EngineConnect], raised := [unreachable]\<rparr>"
    by (simp add: after_pg_connect_def catch_section_def test_all_pg_connect_def io_defs
        pg_defs hp hf)
  show "faults_between hiccup (after_pg_connect hiccup) = [unreachable]"
    by (simp add: h1 faults_between_def hf)
  have q1: "\<forall>i c. length (trace (after_pg_connect hiccup)) \<le> i \<longrightarrow>
      fault_plan (after_pg_connect hiccup) i c = None"
    by (simp add: h1 hp)
  show "faults_between (after_pg_connect hiccup) (after_pg_readwrite stamp hiccup) = []"
    unfolding after_pg_readwrite_def by (rule pg_readwrite_section_quiet [OF q1])
  have "fault_plan (after_pg_readwrite stamp hiccup) = fault_plan (after_pg_connect hiccup)"
    unfolding after_pg_readwrite_def using pg_readwrite_section_env by blast
  moreover have "length (trace (after_pg_connect hiccup)) \<le>
      length (trace (after_pg_readwrite stamp hiccup))"
    unfolding after_pg_readwrite_def by (rule section_trace_grows)
  ultimately have q2: "\<forall>i c. length (trace (after_pg_readwrite stamp hiccup)) \<le> i \<longrightarrow>
      fault_plan (after_pg_readwrite stamp hiccup) i c = None"
    using q1 by auto
  show "faults_between (after_pg_readwrite stamp hiccup) (snd (test_all stamp hiccup)) = []"
    unfolding test_all_state by (rule redis_section_quiet [OF q2])
qed

theorem test_all_sections_isolated_witness:
  "pg_up idle \<and> redis_up idle \<and>
   fst (test_all stamp idle) =
     Ok (JObj [(''pg_connect'', JObj [(''status'', JStr ''ok''),
                                      (''version'', JStr ''PostgreSQL 16.2'')]),
               (''pg_readwrite'', JObj [(''status'', JStr ''ok''), (''row_count'', JInt 1)]),
               (''redis'', JObj [(''status'', JStr ''ok''), (''ping'', JBool True),
                                 (''read_back'', JStr ''testall_value'')])]) \<and>
   pg_down unreachable pg_unreachable \<and> redis_up pg_unreachable \<and>
   fst (test_all stamp pg_unreachable) =
     Ok (JObj [(''pg_connect'', error_entry unreachable),
               (''pg_readwrite'', error_entry unreachable),
               (''redis'', JObj [(''status'', JStr ''ok''), (''ping'', JBool True),
                                 (''read_back'', JStr ''testall_value'')])]) \<and>
   pg_up redis_unreachable \<and> redis_down refused redis_unreachable \<and>
   fst (test_all stamp redis_unreachable) =
     Ok (JObj [(''pg_connect'', JObj [(''status'', JStr ''ok''),
                                      (''version'', JStr ''PostgreSQL 16.2'')]),
               (''pg_readwrite'', JObj [(''status'', JStr ''ok''), (''row_count'', JInt 1)]),
               (''redis'', error_entry refused)]) \<and>
   pg_down unreachable all_unreachable \<and> redis_down refused all_unreachable \<and>
   fst (test_all stamp all_unreachable) =
     Ok (JObj [(''pg_connect'', error_entry unreachable),
               (''pg_readwrite'', error_entry unreachable),
               (''redis'', error_entry refused)]) \<and>
   faults_between hiccup (after_pg_connect hiccup) = [unreachable] \<and>
   faults_between (after_pg_connect hiccup) (after_pg_readwrite stamp hiccup) = [] \<and>
   faults_between (after_pg_readwrite stamp hiccup) (snd (test_all stamp hiccup)) = [] \<and>
   count_list (calls_between hiccup (after_pg_connect hiccup)) EngineConnect = 1 \<and>
   count_list (calls_between (after_pg_connect hiccup) (after_pg_readwrite stamp hiccup))
     EngineConnect = 1 \<and>
   count_list (calls_between (after_pg_readwrite stamp hiccup) (snd (test_all stamp hiccup)))
     RedisPing = 1 \<and>
   fst (test_all stamp hiccup) =
     Ok (JObj [(''pg_connect'', error_entry unreachable),
               (''pg_readwrite'', JObj [(''status'', JStr ''ok''), (''row_count'', JInt 1)]),
               (''redis'', JObj [(''status'', JStr ''ok''), (''ping'', JBool True),
                                 (''read_back'', JStr ''testall_value'')])])"
proof -
  have a: "pg_up idle" "redis_up idle"
    by (simp_all add: pg_up_def redis_up_def idle_def no_faults_def)
  have b: "pg_down unreachable pg_unreachable" "redis_up pg_unreachable"
    by (auto simp: pg_down_def redis_up_def pg_unreachable_def refuse_def)
  have c: "pg_up redis_unreachable" "redis_down refused redis_unreachable"
    by (auto simp: pg_up_def redis_down_def redis_unreachable_def refuse_def)
  have d: "pg_down unreachable all_unreachable" "redis_down refused all_unreachable"
    by (auto simp: pg_down_def redis_down_def all_unreachable_def)
  have v: "pg_version idle = ''PostgreSQL 16.2''" "tbl idle = None"
    "pg_version redis_unreachable = ''PostgreSQL 16.2''" "tbl redis_unreachable = None"
    "pg_version hiccup = ''PostgreSQL 16.2''" "tbl hiccup = None"
    by (simp_all add: idle_def redis_unreachable_def hiccup_def)
  note I = test_all_sections_isolated [of stamp idle unreachable refused]
  note P = test_all_sections_isolated [of stamp pg_unreachable unreachable refused]
  note R = test_all_sections_isolated [of stamp redis_unreachable unreachable refused]
  note A = test_all_sections_isolated [of stamp all_unreachable unreachable refused]
  note H = test_all_sections_isolated [of stamp hiccup unreachable refused]
  have e1: "entry ''pg_connect'' (fst (test_all stamp idle)) = Some (JObj [(''status'', JStr ''ok''), (''version'', JStr ''PostgreSQL 16.2'')])"
    and e2: "entry ''pg_readwrite'' (fst (test_all stamp idle)) = Some (JObj [(''status'', JStr ''ok''), (''row_count'', JInt 1)])"
    using mp [OF I [THEN conjunct2, THEN conjunct2, THEN conjunct2, THEN conjunct2, THEN conjunct2, THEN conjunct2, THEN conjunct2, THEN conjunct2, THEN conjunct2, THEN conjunct2, THEN conjunct1] a(1)] by (simp_all add: v)
  have e3: "entry ''redis'' (fst (test_all stamp idle)) = Some (JObj [(''status'', JStr ''ok''), (''ping'', JBool True),
                                 (''read_back'', JStr ''testall_value'')])"
    using mp [OF I [THEN conjunct2, THEN conjunct2, THEN conjunct2, THEN conjunct2, THEN conjunct2, THEN conjunct2, THEN conjunct2, THEN conjunct2, THEN conjunct2, THEN conjunct2, THEN conjunct2, THEN conjunct2, THEN conjunct1] a(2)] by simp
  have e: "fst (test_all stamp idle) =
     Ok (JObj [(''pg_connect'', JObj [(''status'', JStr ''ok''), (''version'', JStr ''PostgreSQL 16.2'')]),
               (''pg_readwrite'', JObj [(''status'', JStr ''ok''), (''row_count'', JInt 1)]),
               (''redis'', JObj [(''status'', JStr ''ok''), (''ping'', JBool True),
                                 (''read_back'', JStr ''testall_value'')])])"
    by (rule response_from_entries [OF I [THEN conjunct1] e1 e2 e3])
  have f1: "entry ''pg_connect'' (fst (test_all stamp pg_unreachable)) = Some (error_entry unreachable)"
    and f2: "entry ''pg_readwrite'' (fst (test_all stamp pg_unreachable)) = Some (error_entry unreachable)"
    using mp [OF P [THEN conjunct2, THEN conjunct2, THEN conjunct2, THEN conjunct2, THEN conjunct2, THEN conjunct2, THEN conjunct2, THEN conjunct2, THEN conjunct2, THEN conjunct2, THEN conjunct2, THEN conjunct1] b(1)] by (simp_all add: v)
  have f3: "entry ''redis'' (fst (test_all stamp pg_unreachable)) = Some (JObj [(''status'', JStr ''ok''), (''ping'', JBool True),
                                 (''read_back'', JStr ''testall_value'')])"
    using mp [OF P [THEN conjunct2, THEN conjunct2, THEN conjunct2, THEN conjunct2, THEN conjunct2, THEN conjunct2, THEN conjunct2, THEN conjunct2, THEN conjunct2, THEN conjunct2, THEN conjunct2, THEN conjunct2, THEN conjunct1] b(2)] by simp
  have f: "fst (test_all stamp pg_unreachable) =
     Ok (JObj [(''pg_connect'', error_entry unreachable),
               (''pg_readwrite'', error_entry unreachable),
               (''redis'', JObj [(''status'', JStr ''ok''), (''ping'', JBool True),
                                 (''read_back'', JStr ''testall_value'')])])"
    by (rule response_from_entries [OF P [THEN conjunct1] f1 f2 f3])
  have g1: "entry ''pg_connect'' (fst (test_all stamp redis_unreachable)) = Some (JObj [(''status'', JStr ''ok''), (''version'', JStr ''PostgreSQL 16.2'')])"
    and g2: "entry ''pg_readwrite'' (fst (test_all stamp redis_unreachable)) = Some (JObj [(''status'', JStr ''ok''), (''row_count'', JInt 1)])"
    using mp [OF R [THEN conjunct2, THEN conjunct2, THEN conjunct2, THEN conjunct2, THEN conjunct2, THEN conjunct2, THEN conjunct2, THEN conjunct2, THEN conjunct2, THEN conjunct2, THEN conjunct1] c(1)] by (simp_all add: v)
  have g3: "entry ''redis'' (fst (test_all stamp redis_unreachable)) = Some (error_entry refused)"
    using mp [OF R [THEN conjunct2, THEN conjunct2, THEN conjunct2, THEN conjunct2, THEN conjunct2, THEN conjunct2, THEN conjunct2, THEN conjunct2, THEN conjunct2, THEN conjunct2, THEN conjunct2, THEN conjunct2, THEN conjunct2] c(2)] by simp
  have g: "fst (test_all stamp redis_unreachable) =
     Ok (JObj [(''pg_connect'', JObj [(''status'', JStr ''ok''), (''version'', JStr ''PostgreSQL 16.2'')]),
               (''pg_readwrite'', JObj [(''status'', JStr ''ok''), (''row_count'', JInt 1)]),
               (''redis'', error_entry refused)])"
    by (rule response_from_entries [OF R [THEN conjunct1] g1 g2 g3])
  have h1: "entry ''pg_connect'' (fst (test_all stamp all_unreachable)) = Some (error_entry unreachable)"
    and h2: "entry ''pg_readwrite'' (fst (test_all stamp all_unreachable)) = Some (error_entry unreachable)"
    using mp [OF A [THEN conjunct2, THEN conjunct2, THEN conjunct2, THEN conjunct2, THEN conjunct2, THEN conjunct2, THEN conjunct2, THEN conjunct2, THEN conjunct2, THEN conjunct2, THEN conjunct2, THEN conjunct1] d(1)] by (simp_all add: v)
  have h3: "entry ''redis'' (fst (test_all stamp all_unreachable)) = Some (error_entry refused)"
    using mp [OF A [THEN conjunct2, THEN conjunct2, THEN conjunct2, THEN conjunct2, THEN conjunct2, THEN conjunct2, THEN conjunct2, THEN conjunct2, THEN conjunct2, THEN conjunct2, THEN conjunct2, THEN conjunct2, THEN conjunct2] d(2)] by simp
  have h: "fst (test_all stamp all_unreachable) =
     Ok (JObj [(''pg_connect'', error_entry unreachable),
               (''pg_readwrite'', error_entry unreachable),
               (''redis'', error_entry refused)])"
    by (rule response_from_entries [OF A [THEN conjunct1] h1 h2 h3])
  have k1: "entry ''pg_connect'' (fst (test_all stamp hiccup)) = Some (error_entry unreachable)"
    using H [THEN conjunct2, THEN conjunct2, THEN conjunct2, THEN conjunct2, THEN conjunct1] by (simp add: hiccup_run)
  have k2: "entry ''pg_readwrite'' (fst (test_all stamp hiccup)) = Some (JObj [(''status'', JStr ''ok''), (''row_count'', JInt 1)])"
    using mp [OF H [THEN conjunct2, THEN conjunct2, THEN conjunct2, THEN conjunct2, THEN conjunct2, THEN conjunct2, THEN conjunct2, THEN conjunct1] hiccup_run(2)] by (simp add: v)
  have k3: "entry ''redis'' (fst (test_all stamp hiccup)) = Some (JObj [(''status'', JStr ''ok''), (''ping'', JBool True),
                                 (''read_back'', JStr ''testall_value'')])"
    using mp [OF H [THEN conjunct2, THEN conjunct2, THEN conjunct2, THEN conjunct2, THEN conjunct2, THEN conjunct2, THEN conjunct2, THEN conjunct2, THEN conjunct2, THEN conjunct1] hiccup_run(3)] by simp
  have k: "fst (test_all stamp hiccup) =
     Ok (JObj [(''pg_connect'', error_entry unreachable),
               (''pg_readwrite'', JObj [(''status'', JStr ''ok''), (''row_count'', JInt 1)]),
               (''redis'', JObj [(''status'', JStr ''ok''), (''ping'', JBool True),
                                 (''read_back'', JStr ''testall_value'')])])"
    by (rule response_from_entries [OF H [THEN conjunct1] k1 k2 k3])
  show ?thesis
    using a b c d e f g h k hiccup_run H [THEN conjunct2, THEN conjunct1] H [THEN conjunct2, THEN conjunct2, THEN conjunct1] H [THEN conjunct2, THEN conjunct2, THEN conjunct2, THEN conjunct1]
    by simp
qed

section \<open>Faults at the handler boundary\<close>

lemma except_Exception_reports:
  assumes "reports body"
  shows "\<forall>f\<in>set (faults_between s (snd (except_Exception detail body s))).
           fst (except_Exception detail body s) = HTTPException 500 (detail f)"
proof -
  obtain r s' where b: "body s = (r, s')" by (cases "body s")
  show ?thesis
  proof (cases r)
    case (Inl e)
    with b assms have "raised s' = raised s \<or> raised s' = raised s @ [e]"
      by (auto simp: reports_def dest: spec [of _ s])
    with b Inl show ?thesis
      by (auto simp: except_Exception_def faults_between_def)
  next
    case (Inr v)
    with b assms have "raised s' = raised s"
      by (auto simp: reports_def dest: spec [of _ s])
    with b Inr show ?thesis
      by (simp add: except_Exception_def faults_between_def)
  qed
qed

lemma except_Exception_contains: "fst (except_Exception detail body s) \<noteq> Unhandled f"
  by (simp add: except_Exception_def split: prod.splits sum.splits)

lemma except_OperationalError_reports:
  assumes "reports body"
  shows "\<forall>f\<in>set (faults_between s (snd (except_OperationalError detail body s))).
           exc_class_of f = OperationalError \<longrightarrow>
           fst (except_OperationalError detail body s) = HTTPException 500 (detail f)"
proof -
  obtain r s' where b: "body s = (r, s')" by (cases "body s")
  show ?thesis
  proof (cases r)
    case (Inl e)
    with b assms have "raised s' = raised s \<or> raised s' = raised s @ [e]"
      by (auto simp: reports_def dest: spec [of _ s])
    with b Inl show ?thesis
      by (auto simp: except_OperationalError_def faults_between_def)
  next
    case (Inr v)
    with b assms have "raised s' = raised s"
      by (auto simp: reports_def dest: spec [of _ s])
    with b Inr show ?thesis
      by (simp add: except_OperationalError_def faults_between_def)
  qed
qed

text \<open>
  C2, as the code has it. Take any backend state and any plan of faults. In
  \<^verbatim>\<open>/pg/create-table\<close>, \<^verbatim>\<open>/pg/insert\<close>, \<^verbatim>\<open>/pg/read\<close>, \<^verbatim>\<open>/pg/create-db\<close>,
  \<^verbatim>\<open>/pg/drop-db\<close>, \<^verbatim>\<open>/pg/tables\<close>, \<^verbatim>\<open>/redis/write\<close> and \<^verbatim>\<open>/redis/read\<close>, every fault
  \<open>f\<close> that a backend call of the request raised, of any class, is answered with
  HTTP 500 and detail \<open>str(f)\<close>, and no fault leaves these handlers.
  \<^verbatim>\<open>/redis/connect\<close> does the same with the detail prefixed by
  \<open>Redis connection failed: \<close>; \<^verbatim>\<open>/pg/connect\<close> answers a fault of class
  \<open>OperationalError\<close> with HTTP 500 and the detail prefixed by
  \<open>PG connection failed: \<close>; \<^verbatim>\<open>/test-all\<close> always answers 200 and carries the faults
  in its entries; a protected name is answered with HTTP 400.
\<close>

theorem faults_answered_with_500:
  "(\<forall>f\<in>set (faults_between s (snd (pg_create_table s))).
      fst (pg_create_table s) = HTTPException 500 (str_exc f)) \<and>
   (\<forall>f\<in>set (faults_between s (snd (pg_insert str_dt msg s))).
      fst (pg_insert str_dt msg s) = HTTPException 500 (str_exc f)) \<and>
   (\<forall>f\<in>set (faults_between s (snd (pg_read str_dt s))).
      fst (pg_read str_dt s) = HTTPException 500 (str_exc f)) \<and>
   (\<forall>f\<in>set (faults_between s (snd (pg_create_db d s))).
      fst (pg_create_db d s) = HTTPException 500 (str_exc f)) \<and>
   (\<forall>f\<in>set (faults_between s (snd (pg_drop_db d s))).
      fst (pg_drop_db d s) = HTTPException 500 (str_exc f)) \<and>
   (\<forall>f\<in>set (faults_between s (snd (pg_tables s))).
      fst (pg_tables s) = HTTPException 500 (str_exc f)) \<and>
   (\<forall>f\<in>set (faults_between s (snd (redis_write k v s))).
      fst (redis_write k v s) = HTTPException 500 (str_exc f)) \<and>
   (\<forall>f\<in>set (faults_between s (snd (redis_read k s))).
      fst (redis_read k s) = HTTPException 500 (str_exc f)) \<and>
   (\<forall>f\<in>set (faults_between s (snd (redis_connect s))).
      fst (redis_connect s) =
        HTTPException 500 (''Redis connection failed: '' @ str_exc f)) \<and>
   (\<forall>f\<in>set (faults_between s (snd (pg_connect s))).
      exc_class_of f = OperationalError \<longrightarrow>
      fst (pg_connect s) = HTTPException 500 (''PG connection failed: '' @ str_exc f)) \<and>
   (d = ''openLLM'' \<or> d = ''postgres'' \<longrightarrow>
      pg_drop_db d s = (HTTPException 400 ''Cannot drop protected database'', s)) \<and>
   (\<exists>body. fst (test_all st s) = Ok body) \<and>
   fst (pg_create_table s) \<noteq> Unhandled g \<and>
   fst (pg_insert str_dt msg s) \<noteq> Unhandled g \<and>
   fst (pg_read str_dt s) \<noteq> Unhandled g \<and>
   fst (pg_create_db d s) \<noteq> Unhandled g \<and>
   fst (pg_drop_db d s) \<noteq> Unhandled g \<and>
   fst (pg_tables s) \<noteq> Unhandled g \<and>
   fst (redis_connect s) \<noteq> Unhandled g \<and>
   fst (redis_write k v s) \<noteq> Unhandled g \<and>
   fst (redis_read k s) \<noteq> Unhandled g"
proof -
  note rep = tracks_bodies [THEN tracks_reports] reports_pg_insert_body
  have drop_500: "\<forall>f\<in>set (faults_between s (snd (pg_drop_db d s))).
      fst (pg_drop_db d s) = HTTPException 500 (str_exc f)"
  proof (cases "d \<in> {''openLLM'', ''postgres''}")
    case True
    then show ?thesis by (simp add: pg_drop_db_def faults_between_def)
  next
    case False
    then have "pg_drop_db d s = except_Exception str_exc (pg_drop_db_body d) s"
      by (simp add: pg_drop_db_def)
    then show ?thesis
      using except_Exception_reports [OF rep(5), of s str_exc d] by simp
  qed
  have drop_400: "pg_drop_db d s = (HTTPException 400 ''Cannot drop protected database'', s)"
    if "d = ''openLLM'' \<or> d = ''postgres''"
    using that by (auto simp: pg_drop_db_def)
  have all_200: "\<exists>body. fst (test_all st s) = Ok body"
    by (simp add: test_all_unfold)
  have drop_in: "fst (pg_drop_db d s) \<noteq> Unhandled g"
    by (simp add: pg_drop_db_def except_Exception_contains)
  show ?thesis
    unfolding pg_create_table_def pg_insert_def pg_read_def pg_create_db_def
      pg_tables_def redis_write_def redis_read_def redis_connect_def pg_connect_def
    using drop_500 drop_400 all_200 drop_in
    by (intro conjI except_Exception_reports except_OperationalError_reports
        except_Exception_contains rep impI) simp_all
qed
lemma nothing_answers_plan: "fault_plan nothing_answers i c = Some unreachable"
  by (simp add: nothing_answers_def)

lemma nothing_answers_faults:
  "faults_between nothing_answers (snd (pg_create_table nothing_answers)) = [unreachable]"
  "faults_between nothing_answers (snd (pg_insert stamp ''hi'' nothing_answers)) = [unreachable]"
  "faults_between nothing_answers (snd (pg_read stamp nothing_answers)) = [unreachable]"
  "faults_between nothing_answers (snd (pg_create_db ''test_newdb'' nothing_answers)) = [unreachable]"
  "faults_between nothing_answers (snd (pg_drop_db ''test_newdb'' nothing_answers)) = [unreachable]"
  "faults_between nothing_answers (snd (pg_tables nothing_answers)) = [unreachable]"
  "faults_between nothing_answers (snd (redis_write ''k1'' ''v1'' nothing_answers)) = [unreachable]"
  "faults_between nothing_answers (snd (redis_read ''k1'' nothing_answers)) = [unreachable]"
  "faults_between nothing_answers (snd (redis_connect nothing_answers)) = [unreachable]"
  "faults_between nothing_answers (snd (pg_connect nothing_answers)) = [unreachable]"
  by (simp_all add: faults_between_def pg_create_table_def pg_insert_def pg_read_def
      pg_create_db_def pg_drop_db_def pg_tables_def redis_write_def redis_read_def
      redis_connect_def pg_connect_def except_Exception_def except_OperationalError_def
      pg_create_table_body_def pg_insert_body_def pg_read_body_def
      pg_create_db_body_def pg_drop_db_body_def pg_tables_body_def redis_write_body_def
      redis_read_body_def redis_connect_body_def pg_connect_body_def io_defs pg_defs
      raw_connection_def get_table_names_def redis_set_def redis_get_def redis_ping_def
      nothing_answers_plan unreachable_def)

lemma missing_table_fault:
  "faults_between idle (snd (pg_insert stamp ''hi'' idle)) = [undefined_table]"
proof -
  have f: "raised idle = []" "tbl idle = None" by (simp_all add: idle_def)
  show ?thesis
    by (simp add: faults_between_def pg_insert_def except_Exception_def pg_insert_body_def
        io_defs pg_defs healthy_plan [OF healthy_idle] f)
qed

theorem faults_answered_with_500_witness:
  "faults_between nothing_answers (snd (pg_create_table nothing_answers)) = [unreachable] \<and>
   fst (pg_create_table nothing_answers) =
     HTTPException 500 ''could not connect to server'' \<and>
   faults_between nothing_answers (snd (pg_insert stamp ''hi'' nothing_answers)) = [unreachable] \<and>
   fst (pg_insert stamp ''hi'' nothing_answers) =
     HTTPException 500 ''could not connect to server'' \<and>
   faults_between nothing_answers (snd (pg_read stamp nothing_answers)) = [unreachable] \<and>
   fst (pg_read stamp nothing_answers) =
     HTTPException 500 ''could not connect to server'' \<and>
   faults_between nothing_answers (snd (pg_create_db ''test_newdb'' nothing_answers)) = [unreachable] \<and>
   fst (pg_create_db ''test_newdb'' nothing_answers) =
     HTTPException 500 ''could not connect to server'' \<and>
   faults_between nothing_answers (snd (pg_drop_db ''test_newdb'' nothing_answers)) = [unreachable] \<and>
   fst (pg_drop_db ''test_newdb'' nothing_answers) =
     HTTPException 500 ''could not connect to server'' \<and>
   faults_between nothing_answers (snd (pg_tables nothing_answers)) = [unreachable] \<and>
   fst (pg_tables nothing_answers) =
     HTTPException 500 ''could not connect to server'' \<and>
   faults_between nothing_answers (snd (redis_write ''k1'' ''v1'' nothing_answers)) = [unreachable] \<and>
   fst (redis_write ''k1'' ''v1'' nothing_answers) =
     HTTPException 500 ''could not connect to server'' \<and>
   faults_between nothing_answers (snd (redis_read ''k1'' nothing_answers)) = [unreachable] \<and>
   fst (redis_read ''k1'' nothing_answers) =
     HTTPException 500 ''could not connect to server'' \<and>
   faults_between nothing_answers (snd (redis_connect nothing_answers)) = [unreachable] \<and>
   fst (redis_connect nothing_answers) =
     HTTPException 500 ''Redis connection failed: could not connect to server'' \<and>
   faults_between nothing_answers (snd (pg_connect nothing_answers)) = [unreachable] \<and>
   fst (pg_connect nothing_answers) =
     HTTPException 500 ''PG connection failed: could not connect to server'' \<and>
   exc_class_of unreachable = OperationalError \<and>
   faults_between idle (snd (pg_insert stamp ''hi'' idle)) = [undefined_table] \<and>
   fst (pg_insert stamp ''hi'' idle) =
     HTTPException 500 ''relation test_connection does not exist'' \<and>
   pg_drop_db ''postgres'' nothing_answers =
     (HTTPException 400 ''Cannot drop protected database'', nothing_answers)"
proof -
  have c: "exc_class_of unreachable = OperationalError"
    and m: "str_exc unreachable = ''could not connect to server''"
    and u: "str_exc undefined_table = ''relation test_connection does not exist''"
    by (simp_all add: unreachable_def undefined_table_def)
  note T = faults_answered_with_500 [where s = nothing_answers and str_dt = stamp
      and msg = "''hi''" and d = "''test_newdb''" and k = "''k1''" and v = "''v1''"]
  note P = faults_answered_with_500 [where s = nothing_answers and d = "''postgres''"]
  note I = faults_answered_with_500 [where s = idle and str_dt = stamp and msg = "''hi''"]
  have i: "fst (pg_insert stamp ''hi'' idle) =
     HTTPException 500 ''relation test_connection does not exist''"
    using I [THEN conjunct2, THEN conjunct1] by (simp add: missing_table_fault u)
  have p: "pg_drop_db ''postgres'' nothing_answers =
     (HTTPException 400 ''Cannot drop protected database'', nothing_answers)"
    using P [THEN conjunct2, THEN conjunct2, THEN conjunct2, THEN conjunct2, THEN conjunct2,
        THEN conjunct2, THEN conjunct2, THEN conjunct2, THEN conjunct2, THEN conjunct2,
        THEN conjunct1]
    by simp
  show ?thesis
    using T c i p by (simp add: nothing_answers_faults missing_table_fault m)
qed

text \<open>
  C2 as the claim words it fails in three places. When Redis refuses the ping,
  \<^verbatim>\<open>/redis/connect\<close> answers with a detail that is not the fault's message but the
  message behind a prefix; \<^verbatim>\<open>/test-all\<close> answers the same refusal with status 200;
  and a fault of \<^verbatim>\<open>/pg/connect\<close> that is not an \<open>OperationalError\<close>, such as the
  pool's timeout, is caught by no clause of the handler.
\<close>

theorem fault_detail_counterexample:
  "fst (redis_connect_body redis_unreachable) = Inl refused \<and>
   str_exc refused = ''Connection refused'' \<and>
   fst (redis_connect redis_unreachable) =
     HTTPException 500 ''Redis connection failed: Connection refused'' \<and>
   fst (redis_connect redis_unreachable) \<noteq> HTTPException 500 (str_exc refused) \<and>
   fst (test_all_redis redis_unreachable) = Inl refused \<and>
   fst (test_all stamp redis_unreachable) =
     Ok (JObj [(''pg_connect'', JObj [(''status'', JStr ''ok''),
                                      (''version'', JStr ''PostgreSQL 16.2'')]),
               (''pg_readwrite'', JObj [(''status'', JStr ''ok''), (''row_count'', JInt 1)]),
               (''redis'', JObj [(''status'', JStr ''error''),
                                 (''detail'', JStr ''Connection refused'')])]) \<and>
   fst (pg_connect_body pool_exhausted) = Inl pool_timeout \<and>
   fst (pg_connect pool_exhausted) = Unhandled pool_timeout"
proof -
  have p: "fault_plan redis_unreachable i c = (if c = RedisPing then Some refused else None)"
    for i c
    by (simp add: redis_unreachable_def refuse_def)
  have q: "fault_plan pool_exhausted i c = (if c = EngineConnect then Some pool_timeout else None)"
    for i c
    by (simp add: pool_exhausted_def refuse_def)
  have f: "trace redis_unreachable = []" "tbl redis_unreachable = None"
    "tx redis_unreachable = None" "pg_version redis_unreachable = ''PostgreSQL 16.2''"
    by (simp_all add: redis_unreachable_def idle_def)
  have a: "fst (redis_connect_body redis_unreachable) = Inl refused"
    by (simp add: redis_connect_body_def io_defs redis_ping_def p)
  have b: "fst (redis_connect redis_unreachable) =
     HTTPException 500 ''Redis connection failed: Connection refused''"
    by (simp add: redis_connect_def except_Exception_def redis_connect_body_def io_defs
        redis_ping_def p refused_def)
  have c: "fst (test_all_redis redis_unreachable) = Inl refused"
    by (simp add: test_all_redis_def io_defs redis_ping_def p)
  have d: "fst (test_all stamp redis_unreachable) =
     Ok (JObj [(''pg_connect'', JObj [(''status'', JStr ''ok''),
                                      (''version'', JStr ''PostgreSQL 16.2'')]),
               (''pg_readwrite'', JObj [(''status'', JStr ''ok''), (''row_count'', JInt 1)]),
               (''redis'', JObj [(''status'', JStr ''error''),
                                 (''detail'', JStr ''Connection refused'')])])"
    by (simp add: test_all_def catch_section_def test_all_pg_connect_def
        test_all_pg_readwrite_def test_all_redis_def io_defs pg_defs redis_ping_def p f
        refused_def)
  have e: "fst (pg_connect_body pool_exhausted) = Inl pool_timeout"
    by (simp add: pg_connect_body_def io_defs pg_defs q)
  have g: "fst (pg_connect pool_exhausted) = Unhandled pool_timeout"
    by (simp add: pg_connect_def except_OperationalError_def pg_connect_body_def io_defs
        pg_defs q pool_timeout_def)
  show ?thesis using a b c d e g by (simp add: refused_def)
qed

section \<open>Release of connections\<close>

text \<open>
  The handlers that use \<^verbatim>\<open>with engine.connect()\<close> give the connection back on every
  path, whatever the backend does.
\<close>

lemma pooled_connection_released:
  "checked_out (snd (pg_connect s)) = checked_out s"
  "checked_out (snd (pg_create_table s)) = checked_out s"
  "checked_out (snd (pg_insert str_dt msg s)) = checked_out s"
  "checked_out (snd (pg_read str_dt s)) = checked_out s"
  by (simp_all add: pg_connect_def pg_create_table_def pg_insert_def pg_read_def
      except_OperationalError_def except_Exception_def pg_connect_body_def
      pg_create_table_body_def pg_insert_body_def pg_read_body_def io_defs pg_defs
      split: option.splits sum.splits prod.splits)

lemma redis_section_env:
  "checked_out (snd (catch_section test_all_redis s)) = checked_out s"
  by (simp add: catch_section_def test_all_redis_def io_defs redis_ping_def redis_set_def
      redis_get_def split: option.splits sum.splits prod.splits)

lemma pooled_connection_released_test_all:
  "checked_out (snd (test_all st s)) = checked_out s"
  by (simp add: test_all_state after_pg_readwrite_def after_pg_connect_def redis_section_env
      pg_readwrite_section_env pg_connect_section_env)

text \<open>The two handlers with a raw connection give it back when nothing fails.\<close>

lemma raw_connection_released_when_healthy:
  assumes "healthy s" and "plain d"
  shows "checked_out (snd (pg_create_db d s)) = checked_out s"
    and "cursors_open (snd (pg_create_db d s)) = cursors_open s"
    and "checked_out (snd (pg_drop_db d s)) = checked_out s"
    and "cursors_open (snd (pg_drop_db d s)) = cursors_open s"
proof -
  show "checked_out (snd (pg_create_db d s)) = checked_out s"
    and "cursors_open (snd (pg_create_db d s)) = cursors_open s"
    using pg_create_db_present [OF assms] pg_create_db_absent [OF assms]
    by (cases "clip s d \<in> databases s"; simp)+
  show "checked_out (snd (pg_drop_db d s)) = checked_out s"
    and "cursors_open (snd (pg_drop_db d s)) = cursors_open s"
    using pg_drop_db_plain [OF assms]
    by (cases "d = ''openLLM'' \<or> d = ''postgres''"; auto simp: pg_drop_db_def)+
qed

text \<open>
  C3 on the code. When the server refuses the create or the drop statement, the
  \<^verbatim>\<open>except\<close> clause answers 500 and neither \<^verbatim>\<open>cursor.close()\<close> nor
  \<^verbatim>\<open>raw_conn.close()\<close> is called: the request that found no connection checked out
  and no cursor open leaves one of each.
\<close>

theorem raw_connection_left_open_on_fault:
  "checked_out create_denied = 0 \<and> cursors_open create_denied = 0 \<and>
   fst (pg_create_db ''test_newdb'' create_denied) = HTTPException 500 ''permission denied'' \<and>
   trace (snd (pg_create_db ''test_newdb'' create_denied)) =
     [RawConnection, SetIsolationLevel 0, Cursor,
      CursorExecute select_database_sql [''test_newdb''], CursorFetchone,
      CursorExecute (create_database_sql ''test_newdb'') []] \<and>
   checked_out (snd (pg_create_db ''test_newdb'' create_denied)) = 1 \<and>
   cursors_open (snd (pg_create_db ''test_newdb'' create_denied)) = 1 \<and>
   checked_out drop_denied = 0 \<and> cursors_open drop_denied = 0 \<and>
   fst (pg_drop_db ''test_newdb'' drop_denied) = HTTPException 500 ''permission denied'' \<and>
   trace (snd (pg_drop_db ''test_newdb'' drop_denied)) =
     [RawConnection, SetIsolationLevel 0, Cursor,
      CursorExecute (drop_database_sql ''test_newdb'') []] \<and>
   checked_out (snd (pg_drop_db ''test_newdb'' drop_denied)) = 1 \<and>
   cursors_open (snd (pg_drop_db ''test_newdb'' drop_denied)) = 1"
proof -
  have p: "fault_plan create_denied i c =
      (if c = CursorExecute (create_database_sql ''test_newdb'') [] then Some denied
       else None)" for i c
    by (simp add: create_denied_def refuse_def)
  have q: "fault_plan drop_denied i c =
      (if c = CursorExecute (drop_database_sql ''test_newdb'') [] then Some denied else None)"
    for i c
    by (simp add: drop_denied_def refuse_def)
  have f: "checked_out create_denied = 0" "cursors_open create_denied = 0"
    "trace create_denied = []" "databases create_denied = {''postgres'', ''openLLM''}"
    "checked_out drop_denied = 0" "cursors_open drop_denied = 0" "trace drop_denied = []"
    "clip create_denied = take 63" "raised create_denied = []" "raised drop_denied = []"
    by (simp_all add: create_denied_def drop_denied_def idle_def)
  have n: "nul \<notin> set ''test_newdb''" by (simp add: nul_def)
  have a: "pg_create_db ''test_newdb'' create_denied =
     (HTTPException 500 ''permission denied'',
      create_denied\<lparr>checked_out := 1, isolation := 0, cursors_open := 1, cursor_rows := [],
        trace := [RawConnection, SetIsolationLevel 0, Cursor,
          CursorExecute select_database_sql [''test_newdb''], CursorFetchone,
          CursorExecute (create_database_sql ''test_newdb'') []],
        raised := [denied]\<rparr>)"
    by (simp add: pg_create_db_def except_Exception_def pg_create_db_body_def io_defs raw_defs
        p f run_raw_lookup [OF n])
      (simp add: denied_def)
  have b: "pg_drop_db ''test_newdb'' drop_denied =
     (HTTPException 500 ''permission denied'',
      drop_denied\<lparr>checked_out := 1, isolation := 0, cursors_open := 1, cursor_rows := [],
        trace := [RawConnection, SetIsolationLevel 0, Cursor,
          CursorExecute (drop_database_sql ''test_newdb'') []],
        raised := [denied]\<rparr>)"
    by (simp add: pg_drop_db_def except_Exception_def pg_drop_db_body_def io_defs raw_defs
        q f)
      (simp add: denied_def)
  show ?thesis by (simp add: a b f)
qed

section \<open>The sequence stays ahead in the combined test\<close>

lemma serial_ok_test_all: "serial_ok s \<Longrightarrow> serial_ok (snd (test_all st s))"
proof -
  have a: "serial_ok (snd (catch_section test_all_pg_connect s'))" if "serial_ok s'" for s'
    using that
    by (auto simp: serial_ok_def catch_section_def test_all_pg_connect_def io_defs pg_defs
        split: option.splits sum.splits prod.splits)
  have b: "serial_ok (snd (catch_section (test_all_pg_readwrite st) s'))" if "serial_ok s'" for s'
    using that
    by (auto simp: serial_ok_def catch_section_def test_all_pg_readwrite_def io_defs pg_defs
        new_row_def split: option.splits sum.splits prod.splits)
  have c: "serial_ok (snd (catch_section test_all_redis s'))" if "serial_ok s'" for s'
    using that
    by (auto simp: serial_ok_def catch_section_def test_all_redis_def io_defs redis_ping_def
        redis_set_def redis_get_def split: option.splits sum.splits prod.splits)
  assume "serial_ok s"
  then show ?thesis
    by (simp add: test_all_state after_pg_readwrite_def after_pg_connect_def a b c)
qed

end
